theory Spec2Isabelle
  imports Main "HOL-Library.AList" "HOL-Library.Multiset"
begin

section \<open>Strings as the scripts use them\<close>

text \<open>
  JavaScript strings are modelled as \<^typ>\<open>string\<close>. \<open>toLowerCase\<close> and \<open>toUpperCase\<close> are
  modelled on the ASCII letters and leave every other character as it is, so the model is that
  of the scripts on ASCII text. The mapper removes every character outside \<open>[a-z0-9]\<close> after
  lowercasing: there the restriction matters only for the two characters beyond ASCII whose
  lower case is an ASCII letter (U+0130 and U+212A).
\<close>

definition lowerChar :: "char \<Rightarrow> char" where
  "lowerChar c =
     (if 65 \<le> (of_char c :: nat) \<and> (of_char c :: nat) \<le> 90
      then Char (digit0 c) (digit1 c) (digit2 c) (digit3 c) (digit4 c) True (digit6 c) (digit7 c)
      else c)"

definition upperChar :: "char \<Rightarrow> char" where
  "upperChar c =
     (if 97 \<le> (of_char c :: nat) \<and> (of_char c :: nat) \<le> 122
      then Char (digit0 c) (digit1 c) (digit2 c) (digit3 c) (digit4 c) False (digit6 c) (digit7 c)
      else c)"

definition toLowerCase :: "string \<Rightarrow> string" where
  "toLowerCase s = map lowerChar s"

definition toUpperCase :: "string \<Rightarrow> string" where
  "toUpperCase s = map upperChar s"

text \<open>The character class \<open>[a-z0-9]\<close> of the regular expressions in \<open>system.js\<close>.\<close>

definition isLowerAlnum :: "char \<Rightarrow> bool" where
  "isLowerAlnum c =
     (let n = (of_char c :: nat) in (97 \<le> n \<and> n \<le> 122) \<or> (48 \<le> n \<and> n \<le> 57))"

text \<open>JavaScript white space, as far as one-byte characters go (tab, LF, VT, FF, CR, space, NBSP).\<close>

definition isSpace :: "char \<Rightarrow> bool" where
  "isSpace c = (let n = (of_char c :: nat) in (9 \<le> n \<and> n \<le> 13) \<or> n = 32 \<or> n = 160)"

definition trim :: "string \<Rightarrow> string" where
  "trim s = rev (dropWhile isSpace (rev (dropWhile isSpace s)))"

primrec startsWith :: "string \<Rightarrow> string \<Rightarrow> bool" where
  "startsWith s [] = True"
| "startsWith s (c # cs) = (case s of [] \<Rightarrow> False | d # ds \<Rightarrow> d = c \<and> startsWith ds cs)"

text \<open>\<open>s.includes(t)\<close>: \<open>t\<close> occurs in \<open>s\<close> as a contiguous run.\<close>

primrec strIncludes :: "string \<Rightarrow> string \<Rightarrow> bool" where
  "strIncludes [] t = (t = [])"
| "strIncludes (c # cs) t = (startsWith (c # cs) t \<or> strIncludes cs t)"

text \<open>\<open>s.split(/re/)\<close> for a regular expression matching one character of a class.\<close>

primrec splitOn :: "(char \<Rightarrow> bool) \<Rightarrow> string \<Rightarrow> string list" where
  "splitOn p [] = [[]]"
| "splitOn p (c # cs) =
     (if p c then [] # splitOn p cs
      else (case splitOn p cs of [] \<Rightarrow> [[c]] | t # ts \<Rightarrow> (c # t) # ts))"

text \<open>\<open>s.padStart(n, '0')\<close>.\<close>

definition padStart0 :: "nat \<Rightarrow> string \<Rightarrow> string" where
  "padStart0 n s = replicate (n - length s) (CHR ''0'') @ s"

section \<open>Data model\<close>

record field_option =
  o_id :: "string option"
  o_value :: "string option"
  o_label :: "string option"
  o_text :: "string option"
  o_selector :: string

record sub_input =
  i_type :: string
  i_selector :: string

text \<open>
  A detected field, with the annotations the mapper and the orchestrator write on the object
  (\<open>matchedKey\<close>, \<open>mappingTarget\<close>, \<open>verified\<close>). A property that a script may find
  \<open>undefined\<close> is an option.
\<close>

record field =
  label :: string
  name :: "string option"
  ftype :: string
  required :: bool
  selector :: "string option"
  inputSelector :: "string option"
  options :: "field_option list"
  inputs :: "sub_input list option"
  isDisabled :: bool
  isReadonly :: bool
  verified :: bool
  matchedKey :: "string option"
  mappingTarget :: "string option"

section \<open>The label mapper (\<open>mapFieldsToUserData\<close> in \<open>mcp/system.js\<close>)\<close>

text \<open>\<open>normalize = (s) => s ? s.toLowerCase().replace(/[^a-z0-9]/g, '') : ''\<close>\<close>

definition normalize :: "string \<Rightarrow> string" where
  "normalize s = filter isLowerAlnum (toLowerCase s)"

definition normalizeOpt :: "string option \<Rightarrow> string" where
  "normalizeOpt s = (case s of None \<Rightarrow> [] | Some t \<Rightarrow> normalize t)"

text \<open>
  \<open>fTokens\<close>, \<open>kTokens\<close> and \<open>overlap\<close>: both strings are split at the characters outside
  \<open>[a-z0-9]\<close> and the pieces longer than two characters are kept.
\<close>

definition tokens :: "string \<Rightarrow> string list" where
  "tokens s = filter (\<lambda>t. 2 < length t) (splitOn (\<lambda>c. \<not> isLowerAlnum c) s)"

definition overlap :: "string \<Rightarrow> string \<Rightarrow> string list" where
  "overlap fLabel normKey = filter (\<lambda>t. t \<in> set (tokens normKey)) (tokens fLabel)"

text \<open>The body of the inner loop up to the comparison with \<open>bestScore\<close>: the score of one key.\<close>

definition score :: "field \<Rightarrow> string \<Rightarrow> int" where
  "score fld key =
     (let fLabel = normalize (label fld);
          fName = normalizeOpt (name fld);
          fLabelRaw = toLowerCase (label fld);
          normKey = normalize key
      in (if fName = normKey then 100 else 0)
       + (if fLabel = normKey then 100 else 0)
       + (if strIncludes fLabel ''first'' \<and> strIncludes normKey ''first'' then 50 else 0)
       + (if strIncludes fLabel ''last'' \<and> strIncludes normKey ''last'' then 50 else 0)
       - (if strIncludes fLabel ''first'' \<and> strIncludes normKey ''last'' then 100 else 0)
       - (if strIncludes fLabel ''last'' \<and> strIncludes normKey ''first'' then 100 else 0)
       + (if strIncludes fLabel normKey \<or> strIncludes normKey fLabel then 20 else 0)
       + (if 0 < length (overlap fLabel normKey) then int (length (overlap fLabel normKey)) * 15 else 0)
       + (if strIncludes fLabelRaw ''mobile'' \<and> strIncludes normKey ''mobile'' then 200 else 0)
       + (if fLabelRaw = ''gender'' \<and> normKey = ''gender'' then 200 else 0)
       + (if fLabelRaw = ''hobbies'' \<and> normKey = ''hobbies'' then 200 else 0)
       - (if ftype fld = ''radio-group'' \<and> strIncludes normKey ''hobbies'' then 500 else 0)
       - (if ftype fld = ''checkbox-group'' \<and> strIncludes normKey ''gender'' then 500 else 0))"

text \<open>
  The inner loop over the data keys, with the scoring function as a parameter: the state is
  \<open>(bestKey, bestScore)\<close>, started at \<open>(null, 0)\<close>, and a key replaces the best one only on
  a strictly greater score.
\<close>

fun bestKeyLoop :: "(string \<Rightarrow> int) \<Rightarrow> string list \<Rightarrow> string option \<times> int \<Rightarrow> string option \<times> int" where
  "bestKeyLoop sc [] best = best"
| "bestKeyLoop sc (key # keys) (bestKey, bestScore) =
     (if sc key > bestScore then bestKeyLoop sc keys (Some key, sc key)
      else bestKeyLoop sc keys (bestKey, bestScore))"

text \<open>
  \<open>if (bestKey && bestScore >= 40)\<close>: the key the field is mapped to, if any. An empty string
  is falsy, like \<open>null\<close>.
\<close>

definition acceptBest :: "string option \<times> int \<Rightarrow> string option" where
  "acceptBest best =
     (case best of
        (None, bestScore) \<Rightarrow> None
      | (Some bestKey, bestScore) \<Rightarrow> if bestKey \<noteq> [] \<and> 40 \<le> bestScore then Some bestKey else None)"

definition chooseKey :: "(string \<Rightarrow> int) \<Rightarrow> string list \<Rightarrow> string option" where
  "chooseKey sc userDataKeys = acceptBest (bestKeyLoop sc userDataKeys (None, 0))"

text \<open>\<open>mapKey = field.selector || `group-${field.label}`\<close>\<close>

definition mapKeyOf :: "field \<Rightarrow> string" where
  "mapKeyOf fld =
     (case selector fld of
        None \<Rightarrow> ''group-'' @ label fld
      | Some s \<Rightarrow> if s \<noteq> [] then s else ''group-'' @ label fld)"

text \<open>
  One turn of the outer loop: the mapping object and the field object after it. The mapping is
  a JavaScript object used as a dictionary from field keys to data keys.
\<close>

definition mapOneField :: "string list \<Rightarrow> (string \<rightharpoonup> string) \<Rightarrow> field \<Rightarrow> (string \<rightharpoonup> string) \<times> field" where
  "mapOneField userDataKeys mapping fld =
     (case chooseKey (score fld) userDataKeys of
        None \<Rightarrow> (mapping, fld)
      | Some bestKey \<Rightarrow>
          (mapping(mapKeyOf fld \<mapsto> bestKey),
           fld\<lparr>matchedKey := Some bestKey, mappingTarget := Some (mapKeyOf fld)\<rparr>))"

fun mapFieldsLoop :: "string list \<Rightarrow> (string \<rightharpoonup> string) \<Rightarrow> field list \<Rightarrow> (string \<rightharpoonup> string) \<times> field list" where
  "mapFieldsLoop userDataKeys mapping [] = (mapping, [])"
| "mapFieldsLoop userDataKeys mapping (fld # flds) =
     (case mapOneField userDataKeys mapping fld of
        (mapping', fld') \<Rightarrow>
          (case mapFieldsLoop userDataKeys mapping' flds of
             (mapping'', flds') \<Rightarrow> (mapping'', fld' # flds')))"

text \<open>
  The function returns the mapping; the second component is the list of field objects as the
  call leaves them. The third parameter of the source, \<open>userData\<close>, is never read.
\<close>

definition mapFieldsToUserData :: "field list \<Rightarrow> string list \<Rightarrow> (string \<rightharpoonup> string) \<times> field list" where
  "mapFieldsToUserData flds userDataKeys = mapFieldsLoop userDataKeys Map.empty flds"

section \<open>The fill order (\<open>typePriority\<close> and the sort in \<open>runJob\<close>)\<close>

text \<open>The own properties of the object literal \<open>typePriority\<close>.\<close>

definition typePriority :: "(string \<times> int) list" where
  "typePriority =
     [(''text'', 1), (''email'', 1), (''phone'', 1), (''textarea'', 1),
      (''radio-group'', 2),
      (''checkbox-group'', 3),
      (''select'', 4),
      (''date'', 5), (''date-picker'', 5),
      (''react-select'', 6),
      (''file'', 7)]"

text \<open>
  The properties an object literal inherits from \<open>Object.prototype\<close>. A read of one of them on
  \<open>typePriority\<close> yields a function (an object for \<open>__proto__\<close>): a value that is truthy and
  that a subtraction turns into \<open>NaN\<close>.
\<close>

definition inheritedProperties :: "string list" where
  "inheritedProperties =
     [''constructor'', ''__defineGetter__'', ''__defineSetter__'', ''hasOwnProperty'',
      ''__lookupGetter__'', ''__lookupSetter__'', ''isPrototypeOf'', ''propertyIsEnumerable'',
      ''toString'', ''valueOf'', ''__proto__'', ''toLocaleString'']"

text \<open>
  \<open>typePriority[a.type] || 10\<close> as an operand of the subtraction: the number, or \<open>None\<close> when
  the value read is not a number.
\<close>

definition priorityOf :: "field \<Rightarrow> int option" where
  "priorityOf fld =
     (case map_of typePriority (ftype fld) of
        Some p \<Rightarrow> Some (if p = 0 then 10 else p)
      | None \<Rightarrow> if ftype fld \<in> set inheritedProperties then None else Some 10)"

text \<open>The comparator \<open>(a, b) => pa - pb\<close>; \<open>None\<close> is \<open>NaN\<close>.\<close>

definition comparePriority :: "field \<Rightarrow> field \<Rightarrow> int option" where
  "comparePriority a b =
     (case priorityOf a of
        None \<Rightarrow> None
      | Some pa \<Rightarrow> (case priorityOf b of None \<Rightarrow> None | Some pb \<Rightarrow> Some (pa - pb)))"

text \<open>
  \<open>detectedFields.sort(comparefn)\<close>. \<open>Array.prototype.sort\<close> is part of the language and not of
  the repository, so it is the parameter \<open>arraySort\<close>: a function from a comparator and an array
  to the array as the call leaves it.
\<close>

type_synonym 'a array_sort = "('a \<Rightarrow> 'a \<Rightarrow> int option) \<Rightarrow> 'a list \<Rightarrow> 'a list"

definition sortByPriority :: "field array_sort \<Rightarrow> field list \<Rightarrow> field list" where
  "sortByPriority arraySort detectedFields = arraySort comparePriority detectedFields"

text \<open>
  What the language standard says of the sort: the array holds the same elements afterwards, and
  when the comparator is the difference of a numeric key (a consistent comparator) the array is
  sorted by that key, elements with the same key staying in their order. For a comparator that is
  not consistent the standard leaves the order to the implementation.
\<close>

definition standardSort :: "'a array_sort \<Rightarrow> bool" where
  "standardSort arraySort =
     (\<forall>comparefn xs.
        mset (arraySort comparefn xs) = mset xs \<and>
        (\<forall>key. (\<forall>a\<in>set xs. \<forall>b\<in>set xs. comparefn a b = Some (key a - key b)) \<longrightarrow>
               arraySort comparefn xs = sort_key key xs))"

text \<open>
  One sort that meets the standard, for the runs below: a stable insertion sort. As the standard
  has it, a comparison that yields \<open>NaN\<close> counts as \<open>+0\<close>, so the two elements stay in their
  order.
\<close>

fun insertBy :: "('a \<Rightarrow> 'a \<Rightarrow> int option) \<Rightarrow> 'a \<Rightarrow> 'a list \<Rightarrow> 'a list" where
  "insertBy comparefn x [] = [x]"
| "insertBy comparefn x (y # ys) =
     (if (case comparefn x y of None \<Rightarrow> True | Some v \<Rightarrow> v \<le> 0) then x # y # ys
      else y # insertBy comparefn x ys)"

definition insertionSort :: "'a array_sort" where
  "insertionSort comparefn xs = foldr (insertBy comparefn) xs []"

text \<open>The groups of the priority table, in the order in which the fields are to be filled.\<close>

definition priorityGroups :: "string list list" where
  "priorityGroups =
     [[''text'', ''email'', ''phone'', ''textarea''],
      [''radio-group''],
      [''checkbox-group''],
      [''select''],
      [''date'', ''date-picker''],
      [''react-select''],
      [''file'']]"

section \<open>Auxiliary definitions for the statements about the mapper\<close>

text \<open>
  A field object as the inspector builds it: no \<open>name\<close> property, a selector, no annotation
  yet. Used for the concrete runs below.
\<close>

definition newField :: "string \<Rightarrow> string \<Rightarrow> bool \<Rightarrow> string \<Rightarrow> field" where
  "newField lbl ty req sel =
     \<lparr>label = lbl, name = None, ftype = ty, required = req, selector = Some sel,
      inputSelector = None, options = [], inputs = None, isDisabled = False, isReadonly = False,
      verified = False, matchedKey = None, mappingTarget = None\<rparr>"

text \<open>What one turn of the outer loop writes on the field object.\<close>

definition annotate :: "string list \<Rightarrow> field \<Rightarrow> field" where
  "annotate userDataKeys fld =
     (case chooseKey (score fld) userDataKeys of
        None \<Rightarrow> fld
      | Some bestKey \<Rightarrow> fld\<lparr>matchedKey := Some bestKey, mappingTarget := Some (mapKeyOf fld)\<rparr>)"

text \<open>A field object without the two properties the mapper writes.\<close>

definition unannotated :: "field \<Rightarrow> field" where
  "unannotated fld = fld\<lparr>matchedKey := None, mappingTarget := None\<rparr>"

text \<open>
  The token signal as the specification words it, for comparison with \<^const>\<open>overlap\<close>:
  the whole words of the label and of the key (the runs of letters and digits of the lowercased
  text) that are longer than two characters, and 15 points for each word of the label that is
  also a word of the key.
\<close>

definition spec_wordTokens :: "string \<Rightarrow> string list" where
  "spec_wordTokens s =
     filter (\<lambda>t. 2 < length t) (splitOn (\<lambda>c. \<not> isLowerAlnum c) (toLowerCase s))"

definition spec_sharedTokenSignal :: "string \<Rightarrow> string \<Rightarrow> int" where
  "spec_sharedTokenSignal lbl key =
     15 * int (length (filter (\<lambda>t. t \<in> set (spec_wordTokens key)) (spec_wordTokens lbl)))"



section \<open>The fill phase of the orchestrator (\<open>runJob\<close> in \<open>mcp/system.js\<close>)\<close>

datatype exec_state = QUEUED | INSPECTING | FILLING | SUBMITTING | COMPLETED | FAILED

















section \<open>The page capability\<close>

text \<open>
  The scripts drive the browser through Playwright's \<open>page\<close> object. An operation on the page
  is a value of \<open>page_op\<close>; the page answers with a value or throws. What the page answers is
  not in the repository: a page is any function from the operations performed so far, with their
  answers, and the next operation to an answer. A handler is run against such a page and yields
  its result, or the message of the exception it throws, and the operations it has performed.
\<close>

text \<open>The functions the handlers pass to \<open>page.evaluate\<close>.\<close>

datatype script =
    ClearValue string
  | ScriptClick string
  | LinkedInputChecked string "string option"
  | InputChecked string
  | CheckedById "string option"
  | IsAriaCheckbox string
  | AriaChecked string

datatype page_op =
    Query string
  | QueryAll string
  | Click string bool "(nat \<times> nat) option"
  | ClickHandle string nat
  | InnerTextOf string nat
  | ScrollIntoView string
  | WaitForSelector string
  | WaitForTimeout nat
  | IsVisible string
  | SelectOptionByLabel string string
  | SelectOptionByValue string string
  | Fill string string
  | Press string string
  | TypeText string string
  | KeyboardType string
  | KeyboardPress string
  | InputValue string
  | Evaluate script

datatype js_value = Undefined | Boolean bool | Text string | Handles nat

datatype response = Returns js_value | Throws string

type_synonym event = "page_op \<times> response"

type_synonym page_behaviour = "event list \<Rightarrow> page_op \<Rightarrow> response"

type_synonym 'a run = "page_behaviour \<Rightarrow> event list \<Rightarrow> (string + 'a) \<times> event list"

definition perform :: "page_op \<Rightarrow> js_value run" where
  "perform operation pg trace =
     (case pg trace operation of
        Throws message \<Rightarrow> (Inl message, trace @ [(operation, Throws message)])
      | Returns v \<Rightarrow> (Inr v, trace @ [(operation, Returns v)]))"

definition result :: "'a \<Rightarrow> 'a run" where
  "result x pg trace = (Inr x, trace)"

definition throw :: "string \<Rightarrow> 'a run" where
  "throw message pg trace = (Inl message, trace)"

definition andThen :: "'a run \<Rightarrow> ('a \<Rightarrow> 'b run) \<Rightarrow> 'b run" where
  "andThen m f pg trace =
     (case m pg trace of
        (Inl message, trace') \<Rightarrow> (Inl message, trace')
      | (Inr x, trace') \<Rightarrow> f x pg trace')"

text \<open>\<open>try { m } catch (e) { h(e) }\<close>, and \<open>m.catch(h)\<close> on a promise.\<close>

definition catch :: "'a run \<Rightarrow> (string \<Rightarrow> 'a run) \<Rightarrow> 'a run" where
  "catch m h pg trace =
     (case m pg trace of
        (Inl message, trace') \<Rightarrow> h message pg trace'
      | (Inr x, trace') \<Rightarrow> (Inr x, trace'))"

text \<open>The truthiness of a value, as \<open>if (v)\<close> tests it.\<close>

definition truthy :: "js_value \<Rightarrow> bool" where
  "truthy v = (case v of Undefined \<Rightarrow> False | Boolean b \<Rightarrow> b | Text s \<Rightarrow> s \<noteq> [] | Handles n \<Rightarrow> True)"

definition dquote :: string where
  "dquote = [CHR 0x22]"

section \<open>The interaction handlers (\<open>shared/fieldInteractions.js\<close>)\<close>

subsection \<open>\<open>findOptionMatch\<close>\<close>

definition optionTextIs :: "string \<Rightarrow> string option \<Rightarrow> bool" where
  "optionTextIs normVal x =
     (case x of None \<Rightarrow> False | Some s \<Rightarrow> s \<noteq> [] \<and> toLowerCase (trim s) = normVal)"

definition findOptionMatch :: "field_option list \<Rightarrow> string \<Rightarrow> field_option option" where
  "findOptionMatch opts userValue =
     (let normVal = toLowerCase (trim userValue) in
      find (\<lambda>opt. optionTextIs normVal (o_value opt) \<or> optionTextIs normVal (o_label opt)
                   \<or> optionTextIs normVal (o_text opt)) opts)"

subsection \<open>\<open>fillDate\<close>\<close>

text \<open>
  What \<open>fillDate\<close> reads from the \<open>Date\<close> object: \<open>toISOString().split('T')[0]\<close>, the long month
  name, the year, the day of the month and the number of the month, as strings. \<open>Date\<close> is part
  of the language, so the parser \<open>new Date(userValue)\<close> is a parameter of the handler; it
  yields \<open>None\<close> where \<open>isNaN(date.getTime())\<close> holds.
\<close>

record js_date =
  isoDate :: string
  monthLong :: string
  year :: string
  day :: string
  monthNumber :: string

definition fillDate :: "(string \<Rightarrow> js_date option) \<Rightarrow> string \<Rightarrow> string \<Rightarrow> field \<Rightarrow> bool run" where
  "fillDate newDate selectr userValue fld =
     (case newDate userValue of
        None \<Rightarrow> throw (''Invalid date value: '' @ userValue)
      | Some date \<Rightarrow>
          andThen
            (if ftype fld = ''date-picker'' then result True
             else andThen (perform (Query (selectr @ '' .react-datepicker-wrapper'')))
                    (\<lambda>wrapper. result (truthy wrapper)))
            (\<lambda>picker.
               if picker then
                 andThen (perform (Click selectr False None)) (\<lambda>_.
                 andThen (catch (perform (WaitForSelector ''.react-datepicker'')) (\<lambda>_. result Undefined)) (\<lambda>_.
                 andThen (perform (IsVisible ''.react-datepicker'')) (\<lambda>visible.
                   if truthy visible then
                     andThen (catch (perform (SelectOptionByLabel ''.react-datepicker__month-select'' (monthLong date)))
                                (\<lambda>_. result Undefined)) (\<lambda>_.
                     andThen (catch (perform (SelectOptionByValue ''.react-datepicker__year-select'' (year date)))
                                (\<lambda>_. result Undefined)) (\<lambda>_.
                     andThen (catch
                                (perform (Click (''.react-datepicker__day:not(.react-datepicker__day--outside-month):text-is(''
                                                  @ dquote @ day date @ dquote @ '')'') False None))
                                (\<lambda>_. perform (Click (''div[role='' @ dquote @ ''option'' @ dquote @ '']:has-text(''
                                                        @ dquote @ day date @ dquote @ '')'') False None))) (\<lambda>_.
                     result True)))
                   else
                     andThen (perform (Fill selectr (isoDate date))) (\<lambda>_.
                     andThen (perform (Press selectr ''Enter'')) (\<lambda>_.
                     result True)))))
               else
                 catch (andThen (perform (Fill selectr (isoDate date))) (\<lambda>_. result True))
                   (\<lambda>_. andThen (perform (TypeText selectr
                                   (padStart0 2 (monthNumber date) @ ''/'' @ padStart0 2 (day date) @ ''/'' @ year date)))
                           (\<lambda>_. result True))))"

subsection \<open>\<open>fillTimeGroup\<close>\<close>

definition isDigit :: "char \<Rightarrow> bool" where
  "isDigit c = (48 \<le> (of_char c :: nat) \<and> (of_char c :: nat) \<le> 57)"

text \<open>\<open>parseInt(s, 10)\<close>, with \<open>None\<close> for \<open>NaN\<close>.\<close>

definition parseInt10 :: "string \<Rightarrow> int option" where
  "parseInt10 s =
     (let t = dropWhile isSpace s;
          negative = (case t of [] \<Rightarrow> False | c # cs \<Rightarrow> c = CHR ''-'');
          u = (case t of [] \<Rightarrow> [] | c # cs \<Rightarrow> if c = CHR ''-'' \<or> c = CHR ''+'' then cs else t);
          digits = takeWhile isDigit u
      in if digits = [] then None
         else Some ((if negative then - 1 else 1)
                    * foldl (\<lambda>n c. 10 * n + (int (of_char c) - 48)) 0 digits))"

text \<open>
  The parsing at the head of \<open>fillTimeGroup\<close>: \<open>None\<close> when \<open>split(':')\<close> yields fewer than two
  parts, else the hour, the minute and the meridiem.
\<close>

definition parseTime :: "string \<Rightarrow> (string \<times> string \<times> string) option" where
  "parseTime timeStr =
     (case splitOn (\<lambda>c. c = CHR '':'') timeStr of
        part0 # part1 # others \<Rightarrow>
          (let hour = padStart0 2 (trim part0);
               minute = padStart0 2 (take 2 (trim part1));
               ampm = (if strIncludes (toLowerCase timeStr) ''pm'' then ''PM'' else ''AM'');
               numericHour = parseInt10 hour
           in Some (hour, minute,
                if (case numericHour of None \<Rightarrow> False | Some n \<Rightarrow> 12 \<le> n)
                   \<and> \<not> strIncludes (toLowerCase timeStr) ''am''
                then ''PM'' else ampm))
      | _ \<Rightarrow> None)"

definition typeInto :: "string \<Rightarrow> string \<Rightarrow> js_value run" where
  "typeInto selectr text =
     andThen (perform (Click selectr False None)) (\<lambda>_.
     andThen (perform (WaitForTimeout 100)) (\<lambda>_.
     andThen (perform (Evaluate (ClearValue selectr))) (\<lambda>_.
     perform (TypeText selectr text))))"

definition ampmOptions :: string where
  "ampmOptions = ''div[role='' @ dquote @ ''option'' @ dquote
     @ ''], .quantumWizMenuPapermsfMenuOption, [role='' @ dquote @ ''listbox'' @ dquote @ ''] div''"

text \<open>The loop over the option handles: the first one whose text is the meridiem is clicked.\<close>

fun clickAmpmOption :: "string \<Rightarrow> nat list \<Rightarrow> bool run" where
  "clickAmpmOption ampm [] pg trace = (Inr False, trace)"
| "clickAmpmOption ampm (k # ks) pg trace =
     (case perform (InnerTextOf ampmOptions k) pg trace of
        (Inl message, trace') \<Rightarrow> (Inl message, trace')
      | (Inr text, trace') \<Rightarrow>
          if (case text of Text t \<Rightarrow> toUpperCase (trim t) = ampm | _ \<Rightarrow> False)
          then andThen (perform (ClickHandle ampmOptions k)) (\<lambda>_. result True) pg trace'
          else clickAmpmOption ampm ks pg trace')"

definition selectAmpm :: "string \<Rightarrow> string \<Rightarrow> js_value run" where
  "selectAmpm selectr ampm =
     andThen (perform (Click selectr False None)) (\<lambda>_.
     andThen (perform (WaitForTimeout 500)) (\<lambda>_.
     andThen (perform (QueryAll ampmOptions)) (\<lambda>handles.
     andThen (clickAmpmOption ampm [0 ..< (case handles of Handles n \<Rightarrow> n | _ \<Rightarrow> 0)]) (\<lambda>clickedAmpm.
       if clickedAmpm then result Undefined
       else andThen (perform (KeyboardType (take 1 ampm))) (\<lambda>_. perform (KeyboardPress ''Enter''))))))"

definition fillSubInput :: "string \<Rightarrow> string \<Rightarrow> string \<Rightarrow> sub_input \<Rightarrow> js_value run" where
  "fillSubInput hour minute ampm inp =
     andThen (perform (Query (i_selector inp))) (\<lambda>subEl.
     andThen (if truthy subEl then perform (WaitForTimeout 200) else result Undefined) (\<lambda>_.
       if i_type inp = ''hour'' then typeInto (i_selector inp) hour
       else if i_type inp = ''minute'' then typeInto (i_selector inp) minute
       else if i_type inp = ''ampm'' then selectAmpm (i_selector inp) ampm
       else result Undefined))"

fun fillSubInputs :: "string \<Rightarrow> string \<Rightarrow> string \<Rightarrow> sub_input list \<Rightarrow> unit run" where
  "fillSubInputs hour minute ampm [] pg trace = (Inr (), trace)"
| "fillSubInputs hour minute ampm (inp # rest) pg trace =
     (case fillSubInput hour minute ampm inp pg trace of
        (Inl message, trace') \<Rightarrow> (Inl message, trace')
      | (Inr _, trace') \<Rightarrow> fillSubInputs hour minute ampm rest pg trace')"

definition expectedVal :: "string \<Rightarrow> string \<Rightarrow> sub_input \<Rightarrow> string" where
  "expectedVal hour minute inp = (if i_type inp = ''hour'' then hour else minute)"

text \<open>The verification loop, with \<open>verifiedCount\<close> as an accumulator.\<close>

fun verifySubInputs :: "string \<Rightarrow> string \<Rightarrow> sub_input list \<Rightarrow> nat \<Rightarrow> nat run" where
  "verifySubInputs hour minute [] verifiedCount pg trace = (Inr verifiedCount, trace)"
| "verifySubInputs hour minute (inp # rest) verifiedCount pg trace =
     (if i_type inp \<noteq> ''ampm''
      then (case perform (InputValue (i_selector inp)) pg trace of
              (Inl message, trace') \<Rightarrow> (Inl message, trace')
            | (Inr actualVal, trace') \<Rightarrow>
                verifySubInputs hour minute rest
                  (if actualVal = Text (expectedVal hour minute inp) then verifiedCount + 1 else verifiedCount)
                  pg trace')
      else verifySubInputs hour minute rest verifiedCount pg trace)"

text \<open>
  A field without the property \<open>inputs\<close> makes \<open>field.inputs.filter\<close> throw a \<open>TypeError\<close>,
  after the parsing and before any operation on the page.
\<close>

definition fillTimeGroup :: "field \<Rightarrow> string \<Rightarrow> bool run" where
  "fillTimeGroup fld userValue =
     (case parseTime userValue of
        None \<Rightarrow>
          throw (''Invalid time format for '' @ dquote @ label fld @ dquote @ ''. Expected '' @ dquote
                 @ ''HH:MM'' @ dquote @ '', got '' @ dquote @ userValue @ dquote)
      | Some (hour, minute, ampm) \<Rightarrow>
          (case inputs fld of
             None \<Rightarrow> throw ''TypeError: Cannot read properties of undefined (reading 'filter')''
           | Some ins \<Rightarrow>
               (let expectedNumericCount = length (filter (\<lambda>i. i_type i \<noteq> ''ampm'') ins) in
                andThen (fillSubInputs hour minute ampm ins) (\<lambda>_.
                andThen (verifySubInputs hour minute ins 0) (\<lambda>verifiedCount.
                  if verifiedCount = expectedNumericCount then result True
                  else throw (''Failed to fill time field: '' @ label fld))))))"

subsection \<open>\<open>selectRadio\<close> and \<open>selectCheckbox\<close>\<close>

text \<open>The label of the option is clicked rather than its input when the page has one.\<close>

definition chooseClickSelector :: "field_option \<Rightarrow> string run" where
  "chooseClickSelector match =
     (case o_id match of
        None \<Rightarrow> result (o_selector match)
      | Some ident \<Rightarrow>
          if ident = [] then result (o_selector match)
          else andThen (perform (Query (''label[for='' @ dquote @ ident @ dquote @ '']'')))
                 (\<lambda>labelEl. result (if truthy labelEl then ''label[for='' @ dquote @ ident @ dquote @ '']''
                                     else o_selector match)))"



definition checkOneValue :: "field \<Rightarrow> string \<Rightarrow> unit run" where
  "checkOneValue fld val =
     (case findOptionMatch (options fld) val of
        None \<Rightarrow>
          throw (''No matching checkbox found for '' @ dquote @ label fld @ dquote @ '' with value ''
                 @ dquote @ val @ dquote)
      | Some match \<Rightarrow>
          andThen (chooseClickSelector match) (\<lambda>clickSelector.
          andThen (perform (Evaluate (CheckedById (o_id match)))) (\<lambda>currentState.
            if truthy currentState then result ()
            else
              andThen (perform (Click clickSelector True None)) (\<lambda>_.
              andThen (perform (WaitForTimeout 300)) (\<lambda>_.
              andThen (perform (Evaluate (CheckedById (o_id match)))) (\<lambda>isChecked.
                if truthy isChecked then result ()
                else andThen (perform (Click clickSelector True None)) (\<lambda>_. result ())))))))"

fun checkValues :: "field \<Rightarrow> string list \<Rightarrow> unit run" where
  "checkValues fld [] pg trace = (Inr (), trace)"
| "checkValues fld (val # vals) pg trace =
     (case checkOneValue fld val pg trace of
        (Inl message, trace') \<Rightarrow> (Inl message, trace')
      | (Inr _, trace') \<Rightarrow> checkValues fld vals pg trace')"

text \<open>
  \<open>selectCheckbox\<close>; \<open>userValue\<close> is given as the list \<open>values\<close> the handler makes of it (the
  array itself, or the one string).
\<close>

definition selectCheckbox :: "field \<Rightarrow> string list \<Rightarrow> bool run" where
  "selectCheckbox fld vals = andThen (checkValues fld vals) (\<lambda>_. result True)"

section \<open>The radio and checkbox branches of the orchestrator (\<open>runJob\<close> in \<open>mcp/system.js\<close>)\<close>





text \<open>The answers of the page to the verification scripts, in the order in which they were given.\<close>

definition isVerification :: "page_op \<Rightarrow> bool" where
  "isVerification operation =
     (case operation of
        Evaluate (LinkedInputChecked s i) \<Rightarrow> True
      | Evaluate (InputChecked s) \<Rightarrow> True
      | Evaluate (CheckedById i) \<Rightarrow> True
      | Evaluate (AriaChecked s) \<Rightarrow> True
      | _ \<Rightarrow> False)"

definition verifications :: "event list \<Rightarrow> response list" where
  "verifications trace = map snd (filter (\<lambda>e. isVerification (fst e)) trace)"

section \<open>Traces\<close>

text \<open>A run only adds to the trace of operations.\<close>

definition extends :: "'a run \<Rightarrow> bool" where
  "extends m = (\<forall>pg trace. \<exists>suffix. snd (m pg trace) = trace @ suffix)"

text \<open>A run is quiet when it adds no answer to a verification script to the trace.\<close>

definition quiet :: "'a run \<Rightarrow> bool" where
  "quiet m = (\<forall>pg trace. \<exists>suffix. snd (m pg trace) = trace @ suffix \<and> verifications suffix = [])"

section \<open>Concrete fields and pages for the runs below\<close>

definition timeField :: field where
  "timeField =
     (newField ''Time'' ''time-group'' True ''#time'')
       \<lparr>inputs := Some [\<lparr>i_type = ''hour'', i_selector = ''#h''\<rparr>,
                         \<lparr>i_type = ''minute'', i_selector = ''#m''\<rparr>,
                         \<lparr>i_type = ''ampm'', i_selector = ''#ap''\<rparr>]\<rparr>"

definition timePage :: page_behaviour where
  "timePage trace operation =
     (case operation of
        InputValue s \<Rightarrow> Returns (Text (if s = ''#h'' then ''14'' else ''05''))
      | QueryAll s \<Rightarrow> Returns (Handles 2)
      | InnerTextOf s k \<Rightarrow> Returns (Text (if k = 0 then ''AM'' else ''PM''))
      | _ \<Rightarrow> Returns Undefined)"

definition oneDate :: "string \<Rightarrow> js_date option" where
  "oneDate s =
     (if s = ''2024-01-15''
      then Some \<lparr>isoDate = ''2024-01-15'', monthLong = ''January'', year = ''2024'', day = ''15'',
                 monthNumber = ''1''\<rparr>
      else None)"

definition genderField :: field where
  "genderField =
     (newField ''Gender'' ''radio-group'' True ''#genderWrapper'')
       \<lparr>options :=
          [\<lparr>o_id = Some ''gender-radio-1'', o_value = Some ''Male'', o_label = Some ''Male'',
            o_text = Some ''Male'', o_selector = ''#male''\<rparr>,
           \<lparr>o_id = Some ''gender-radio-2'', o_value = Some ''Female'', o_label = Some ''Female'',
            o_text = Some ''Female'', o_selector = ''#female''\<rparr>]\<rparr>"

text \<open>A page on which no click ever checks anything.\<close>

definition inertPage :: page_behaviour where
  "inertPage trace operation =
     (case operation of
        Evaluate s \<Rightarrow> Returns (Boolean False)
      | Query s \<Rightarrow> Returns (Handles 1)
      | _ \<Rightarrow> Returns Undefined)"




text \<open>
  Three detected fields for the fill order: a file input, an element found by the generic scan
  whose \<open>type\<close> property is the string \<open>constructor\<close>, and a text input.
\<close>

definition resumeField :: field where
  "resumeField = newField ''Resume'' ''file'' False ''#resume''"

definition embedField :: field where
  "embedField = newField ''Portfolio'' ''constructor'' False ''#portfolio''"

definition nameField :: field where
  "nameField = newField ''Name'' ''text'' False ''#name''"

section \<open>Field discovery (\<open>inspectForm\<close> in \<open>formInspector.js\<close>)\<close>

text \<open>
  The script passed to \<open>page.evaluate\<close> reads the document and fills a \<open>Map\<close> from labels to
  fields in three passes. The document is not in the repository; each pass is modelled on the
  answers of the document to the queries of that pass, one record for each element the pass
  visits, in the order of the document.
\<close>

subsection \<open>The map from labels to fields\<close>

text \<open>
  A \<open>Map\<close> keeps its keys in the order of their first insertion; \<open>set\<close> on a key that is
  present replaces the value in place. \<open>Array.from(detectedMap.values())\<close> is the list of the
  values in that order.
\<close>

type_synonym detected_map = "(string \<times> field) list"

definition mapSet :: "string \<Rightarrow> field \<Rightarrow> detected_map \<Rightarrow> detected_map" where
  "mapSet k v m = AList.update k v m"

definition mapHas :: "detected_map \<Rightarrow> string \<Rightarrow> bool" where
  "mapHas m k = (map_of m k \<noteq> None)"

definition mapValues :: "detected_map \<Rightarrow> field list" where
  "mapValues m = map snd m"

subsection \<open>Strings\<close>

fun showNat :: "nat \<Rightarrow> string" where
  "showNat n =
     (if n < 10 then [char_of (48 + n)]
      else showNat (n div 10) @ [char_of (48 + n mod 10)])"

text \<open>\<open>.replace(/^[\*\s]+|[\*\s]+$/g, '')\<close>\<close>

definition stripMarkers :: "string \<Rightarrow> string" where
  "stripMarkers s =
     rev (dropWhile (\<lambda>c. c = CHR ''*'' \<or> isSpace c)
       (rev (dropWhile (\<lambda>c. c = CHR ''*'' \<or> isSpace c) s)))"

text \<open>\<open>.replace(/\s*\(Required\)$/i, '')\<close>\<close>

definition stripRequired :: "string \<Rightarrow> string" where
  "stripRequired s =
     (if 10 \<le> length s \<and> toLowerCase (drop (length s - 10) s) = ''(required)''
      then rev (dropWhile isSpace (rev (take (length s - 10) s)))
      else s)"

subsection \<open>The first pass: one container for each question\<close>

text \<open>
  What the pass reads of a \<open>div[role="listitem"]\<close>: the cleaned text of its heading (empty
  without one), whether it holds a marker of a required question, its \<open>div[role="radio"]\<close> and
  \<open>div[role="checkbox"]\<close> elements as options, whether it holds a listbox, the type of its
  first input that is not hidden, and whether it holds a textarea or an editable element.
\<close>

record question =
  q_heading :: string
  q_required :: bool
  q_radios :: "field_option list"
  q_checkboxes :: "field_option list"
  q_listbox :: bool
  q_textInput :: "string option"
  q_textarea :: bool
  q_contentEditable :: bool

definition baseSelector :: "nat \<Rightarrow> string" where
  "baseSelector index =
     ''div[role='' @ dquote @ ''listitem'' @ dquote @ '']:nth-of-type('' @ showNat (index + 1) @ '')''"

text \<open>The type, the options and the selector found by looking into the container.\<close>

definition classifyQuestion :: "nat \<Rightarrow> question \<Rightarrow> string \<times> field_option list \<times> string option" where
  "classifyQuestion index q =
     (if q_radios q \<noteq> [] then (''radio-group'', q_radios q, Some (baseSelector index))
      else if q_checkboxes q \<noteq> [] then (''checkbox-group'', q_checkboxes q, Some (baseSelector index))
      else if q_listbox q then
        (''select'', [], Some (baseSelector index @ '' div[role='' @ dquote @ ''listbox'' @ dquote @ '']''))
      else
        (case q_textInput q of
           Some t \<Rightarrow>
             (if t = ''date'' then ''date'' else if t = ''time'' then ''time-group'' else ''text'', [],
              Some (baseSelector index @ '' input:not([type='' @ dquote @ ''hidden'' @ dquote @ ''])''))
         | None \<Rightarrow>
             if q_textarea q then (''textarea'', [], Some (baseSelector index @ '' textarea''))
             else if q_contentEditable q then
               (''text'', [], Some (baseSelector index @ '' [contenteditable='' @ dquote @ ''true'' @ dquote @ '']''))
             else (''text'', [], None)))"

text \<open>The heuristics on the label, which may replace the type.\<close>

definition refineByLabel :: "string \<Rightarrow> string \<Rightarrow> string" where
  "refineByLabel labelText fieldType =
     (let lowerLabel = toLowerCase labelText in
      if strIncludes lowerLabel ''email'' then ''email''
      else if strIncludes lowerLabel ''phone'' \<or> strIncludes lowerLabel ''mobile'' then ''phone''
      else if strIncludes lowerLabel ''date'' \<and> fieldType = ''text'' then ''date''
      else fieldType)"

definition detectedField ::
  "string \<Rightarrow> string \<Rightarrow> bool \<Rightarrow> string \<Rightarrow> string option \<Rightarrow> field_option list \<Rightarrow> field" where
  "detectedField ty lbl req sel inputSel opts =
     \<lparr>label = lbl, name = None, ftype = ty, required = req, selector = Some sel,
      inputSelector = inputSel, options = opts, inputs = None, isDisabled = False,
      isReadonly = False, verified = False, matchedKey = None, mappingTarget = None\<rparr>"

definition inspectQuestion :: "nat \<Rightarrow> question \<Rightarrow> detected_map \<Rightarrow> detected_map" where
  "inspectQuestion index q detectedMap =
     (let labelText = trim (stripRequired (stripMarkers (q_heading q))) in
      case classifyQuestion index q of
        (fieldType, opts, sel) \<Rightarrow>
          (case sel of
             None \<Rightarrow> detectedMap
           | Some s \<Rightarrow>
               if labelText \<noteq> [] \<and> s \<noteq> []
               then mapSet labelText
                      (detectedField (refineByLabel labelText fieldType) labelText (q_required q) s None opts)
                      detectedMap
               else detectedMap))"

fun inspectQuestions :: "nat \<Rightarrow> question list \<Rightarrow> detected_map \<Rightarrow> detected_map" where
  "inspectQuestions index [] detectedMap = detectedMap"
| "inspectQuestions index (q # qs) detectedMap =
     inspectQuestions (index + 1) qs (inspectQuestion index q detectedMap)"

subsection \<open>The second pass: native radio buttons and checkboxes, grouped by name\<close>

text \<open>
  What the pass reads of a group, in the order of \<open>Object.keys(groups)\<close>: its name, the cleaned
  texts of the legend of the enclosing fieldset, of the element before the enclosing column and
  of the label before the container (each empty when there is none), the type of its first
  input, the selector of the parent of that input, and its inputs as options.
\<close>

record native_group =
  g_name :: string
  g_legend :: string
  g_columnLabel :: string
  g_precedingLabel :: string
  g_firstType :: string
  g_selector :: string
  g_options :: "field_option list"

definition groupLabelOf :: "native_group \<Rightarrow> string" where
  "groupLabelOf g =
     (if g_legend g \<noteq> [] then g_legend g
      else if g_columnLabel g \<noteq> [] then g_columnLabel g
      else if g_precedingLabel g \<noteq> [] then g_precedingLabel g
      else g_name g)"

definition inspectGroup :: "native_group \<Rightarrow> detected_map \<Rightarrow> detected_map" where
  "inspectGroup g detectedMap =
     (let groupLabel = groupLabelOf g in
      if groupLabel = [] then detectedMap
      else mapSet groupLabel
             (detectedField (if g_firstType g = ''radio'' then ''radio-group'' else ''checkbox-group'')
                groupLabel False (g_selector g) None (g_options g))
             detectedMap)"

fun inspectGroups :: "native_group list \<Rightarrow> detected_map \<Rightarrow> detected_map" where
  "inspectGroups [] detectedMap = detectedMap"
| "inspectGroups (g # gs) detectedMap = inspectGroups gs (inspectGroup g detectedMap)"

subsection \<open>The third pass: every other input\<close>

text \<open>
  What the pass reads of an element: its tag, type and id, whether it lies in a question
  container, whether the second pass has put it in a group, whether it is visible, the marks of
  the custom widgets, the cleaned texts of its \<open>label[for]\<close> and of the element before its
  column, its placeholder, its \<open>required\<close> property, its selector and the selector of the
  container of a searchable select, and its options when it is a \<open>select\<close>.
\<close>

record element =
  e_tagName :: string
  e_type :: "string option"
  e_id :: string
  e_inListitem :: bool
  e_inGroup :: bool
  e_visible :: bool
  e_reactSelectInputClass :: bool
  e_inDatepickerWrapper :: bool
  e_inStateCityWrapper :: bool
  e_labelFor :: string
  e_columnLabel :: string
  e_placeholder :: "string option"
  e_required :: bool
  e_selector :: string
  e_containerSelector :: string
  e_selectOptions :: "field_option list"

definition customTypeOf :: "element \<Rightarrow> string option" where
  "customTypeOf el =
     (if e_id el = ''subjectsInput'' \<or> e_reactSelectInputClass el then Some ''autocomplete''
      else if e_id el = ''dateOfBirthInput'' \<or> e_inDatepickerWrapper el then Some ''date-picker''
      else if e_id el \<noteq> [] \<and> strIncludes (e_id el) ''react-select'' then Some ''react-select''
      else None)"

definition resolveLabel :: "element \<Rightarrow> string" where
  "resolveLabel el =
     (let wrapperLabel =
            (if e_inStateCityWrapper el \<or> strIncludes (e_id el) ''react-select''
             then (if strIncludes (e_id el) ''react-select-3'' then ''State''
                   else if strIncludes (e_id el) ''react-select-4'' then ''City'' else [])
             else [])
      in if wrapperLabel \<noteq> [] then wrapperLabel
         else if e_id el \<noteq> [] \<and> e_labelFor el \<noteq> [] then e_labelFor el
         else if e_columnLabel el \<noteq> [] then e_columnLabel el
         else (case e_placeholder el of None \<Rightarrow> [] | Some p \<Rightarrow> p))"

definition genericType :: "element \<Rightarrow> string \<Rightarrow> string" where
  "genericType el labelText =
     (let fieldType0 =
            (case customTypeOf el of
               Some t \<Rightarrow> t
             | None \<Rightarrow> (case e_type el of None \<Rightarrow> ''text'' | Some t \<Rightarrow> if t = [] then ''text'' else t));
          fieldType1 = (if e_tagName el = ''SELECT'' then ''select'' else fieldType0);
          fieldType2 = (if e_tagName el = ''TEXTAREA'' then ''textarea'' else fieldType1)
      in if fieldType2 = ''text''
         then (if strIncludes (toLowerCase labelText) ''email'' then ''email''
               else if strIncludes (toLowerCase labelText) ''phone''
                       \<or> strIncludes (toLowerCase labelText) ''mobile'' then ''phone''
               else fieldType2)
         else fieldType2)"

definition inspectElement :: "element \<Rightarrow> detected_map \<Rightarrow> detected_map" where
  "inspectElement el detectedMap =
     (if e_tagName el = ''INPUT'' \<and> e_type el = Some ''hidden'' \<and> \<not> strIncludes (e_id el) ''react-select''
      then detectedMap
      else if e_inListitem el then detectedMap
      else if e_inGroup el then detectedMap
      else if \<not> e_visible el \<and> customTypeOf el = None \<and> e_type el \<noteq> Some ''radio''
              \<and> e_type el \<noteq> Some ''checkbox'' \<and> e_type el \<noteq> Some ''file''
      then detectedMap
      else
        (let labelText = resolveLabel el in
         if labelText = [] then detectedMap
         else if mapHas detectedMap labelText then detectedMap
         else
           (let fieldType = genericType el labelText in
            mapSet labelText
              (detectedField fieldType labelText
                 (e_required el \<or> strIncludes labelText ''*'')
                 (if customTypeOf el = Some ''react-select'' then e_containerSelector el else e_selector el)
                 (Some (e_selector el))
                 (if fieldType = ''select'' then e_selectOptions el else []))
              detectedMap)))"

fun inspectElements :: "element list \<Rightarrow> detected_map \<Rightarrow> detected_map" where
  "inspectElements [] detectedMap = detectedMap"
| "inspectElements (el # els) detectedMap = inspectElements els (inspectElement el detectedMap)"

subsection \<open>The whole pass\<close>

record document =
  googleQuestions :: "question list"
  groups :: "native_group list"
  genericInputs :: "element list"

definition afterQuestions :: "document \<Rightarrow> detected_map" where
  "afterQuestions doc = inspectQuestions 0 (googleQuestions doc) []"

definition afterGroups :: "document \<Rightarrow> detected_map" where
  "afterGroups doc = inspectGroups (groups doc) (afterQuestions doc)"

text \<open>
  The second pass collects the inputs in the object \<open>groups\<close>, under their names, by
  \<open>if (!groups[name]) groups[name] = []; groups[name].push(el)\<close>. Under a name that the object
  inherits the value read is truthy and has no \<open>push\<close>: the call throws a \<open>TypeError\<close>, the
  script ends, and so does \<open>inspectForm\<close>, with nothing caught.
\<close>

definition inspectForm :: "document \<Rightarrow> string + field list" where
  "inspectForm doc =
     (if \<exists>g\<in>set (groups doc). g_name g \<in> set inheritedProperties
      then Inl ''groups[name].push is not a function''
      else Inr (mapValues (inspectElements (genericInputs doc) (afterGroups doc))))"

text \<open>The invariant of the map: the keys are distinct, and each is the non-empty label of its field.\<close>

definition labelled :: "detected_map \<Rightarrow> bool" where
  "labelled m = (distinct (map fst m) \<and> (\<forall>(k, f)\<in>set m. label f = k \<and> k \<noteq> []))"

text \<open>
  A document with a question headed \<open>Gender\<close> in a question container, holding a text input,
  and, outside the containers, a group of one native radio button under the legend \<open>Gender\<close>.
\<close>

definition collidingDocument :: document where
  "collidingDocument =
     \<lparr>googleQuestions =
        [\<lparr>q_heading = ''Gender *'', q_required = True, q_radios = [], q_checkboxes = [],
          q_listbox = False, q_textInput = Some ''text'', q_textarea = False,
          q_contentEditable = False\<rparr>],
      groups =
        [\<lparr>g_name = ''gender'', g_legend = ''Gender'', g_columnLabel = [], g_precedingLabel = [],
          g_firstType = ''radio'', g_selector = ''#genderWrapper'',
          g_options =
            [\<lparr>o_id = Some ''gender-radio-1'', o_value = Some ''Male'', o_label = Some ''Male'',
              o_text = Some ''Male'', o_selector = ''#male''\<rparr>]\<rparr>],
      genericInputs =
        [\<lparr>e_tagName = ''INPUT'', e_type = Some ''text'', e_id = [], e_inListitem = True,
          e_inGroup = False, e_visible = True, e_reactSelectInputClass = False,
          e_inDatepickerWrapper = False, e_inStateCityWrapper = False, e_labelFor = [],
          e_columnLabel = [], e_placeholder = None, e_required = False,
          e_selector = ''div > div > input'', e_containerSelector = [], e_selectOptions = []\<rparr>,
         \<lparr>e_tagName = ''INPUT'', e_type = Some ''radio'', e_id = ''gender-radio-1'',
          e_inListitem = False, e_inGroup = True, e_visible = True, e_reactSelectInputClass = False,
          e_inDatepickerWrapper = False, e_inStateCityWrapper = False, e_labelFor = ''Male'',
          e_columnLabel = [], e_placeholder = None, e_required = False,
          e_selector = ''#gender-radio-1'', e_containerSelector = [], e_selectOptions = []\<rparr>]\<rparr>"

section \<open>Properties of the label mapper\<close>

subsection \<open>The selection loop\<close>

lemma bestKeyLoop_keep:
  "\<forall>k'\<in>set keys. sc k' \<le> bs \<Longrightarrow> bestKeyLoop sc keys (bk, bs) = (bk, bs)"
  by (induction keys) auto

lemma bestKeyLoop_first_max:
  "\<forall>k'\<in>set pre. sc k' < sc k \<Longrightarrow> bs < sc k \<Longrightarrow> \<forall>k'\<in>set post. sc k' \<le> sc k \<Longrightarrow>
   bestKeyLoop sc (pre @ k # post) (bk, bs) = (Some k, sc k)"
proof (induction pre arbitrary: bk bs)
  case Nil
  then show ?case by (simp add: bestKeyLoop_keep)
next
  case (Cons x pre)
  then show ?case by simp
qed

text \<open>Either no key beats the starting score, or there is a first key with the greatest score.\<close>

lemma bestKeyLoop_cases:
  "(\<forall>k'\<in>set keys. sc k' \<le> (bs::int)) \<or>
   (\<exists>pre k post. keys = pre @ k # post \<and> bs < sc k \<and>
      (\<forall>k'\<in>set pre. sc k' < sc k) \<and> (\<forall>k'\<in>set post. sc k' \<le> sc k))"
proof (induction keys arbitrary: bs)
  case Nil
  then show ?case by simp
next
  case (Cons x xs)
  show ?case
  proof (cases "sc x \<le> bs")
    case True
    from Cons.IH [of bs] show ?thesis
    proof
      assume "\<forall>k'\<in>set xs. sc k' \<le> bs"
      with True show ?thesis by simp
    next
      assume "\<exists>pre k post. xs = pre @ k # post \<and> bs < sc k \<and>
        (\<forall>k'\<in>set pre. sc k' < sc k) \<and> (\<forall>k'\<in>set post. sc k' \<le> sc k)"
      then obtain pre k post where d: "xs = pre @ k # post" "bs < sc k"
        "\<forall>k'\<in>set pre. sc k' < sc k" "\<forall>k'\<in>set post. sc k' \<le> sc k" by blast
      with True have "x # xs = (x # pre) @ k # post \<and> bs < sc k \<and>
        (\<forall>k'\<in>set (x # pre). sc k' < sc k) \<and> (\<forall>k'\<in>set post. sc k' \<le> sc k)"
        by auto
      then show ?thesis by blast
    qed
  next
    case False
    from Cons.IH [of "sc x"] show ?thesis
    proof
      assume "\<forall>k'\<in>set xs. sc k' \<le> sc x"
      with False have "x # xs = [] @ x # xs \<and> bs < sc x \<and>
        (\<forall>k'\<in>set []. sc k' < sc x) \<and> (\<forall>k'\<in>set xs. sc k' \<le> sc x)"
        by auto
      then show ?thesis by blast
    next
      assume "\<exists>pre k post. xs = pre @ k # post \<and> sc x < sc k \<and>
        (\<forall>k'\<in>set pre. sc k' < sc k) \<and> (\<forall>k'\<in>set post. sc k' \<le> sc k)"
      then obtain pre k post where d: "xs = pre @ k # post" "sc x < sc k"
        "\<forall>k'\<in>set pre. sc k' < sc k" "\<forall>k'\<in>set post. sc k' \<le> sc k" by blast
      with False have "x # xs = (x # pre) @ k # post \<and> bs < sc k \<and>
        (\<forall>k'\<in>set (x # pre). sc k' < sc k) \<and> (\<forall>k'\<in>set post. sc k' \<le> sc k)"
        by auto
      then show ?thesis by blast
    qed
  qed
qed

lemma chooseKey_Some_iff:
  "chooseKey sc keys = Some k \<longleftrightarrow>
     k \<noteq> [] \<and> 40 \<le> sc k \<and>
     (\<exists>pre post. keys = pre @ k # post \<and>
        (\<forall>k'\<in>set pre. sc k' < sc k) \<and> (\<forall>k'\<in>set post. sc k' \<le> sc k))"
  (is "?lhs \<longleftrightarrow> ?rhs")
proof
  assume a: ?lhs
  from bestKeyLoop_cases [of keys sc 0] show ?rhs
  proof
    assume "\<forall>k'\<in>set keys. sc k' \<le> 0"
    then have "bestKeyLoop sc keys (None, 0) = (None, 0)" by (rule bestKeyLoop_keep)
    with a show ?thesis by (simp add: chooseKey_def acceptBest_def)
  next
    assume "\<exists>pre k post. keys = pre @ k # post \<and> 0 < sc k \<and>
      (\<forall>k'\<in>set pre. sc k' < sc k) \<and> (\<forall>k'\<in>set post. sc k' \<le> sc k)"
    then obtain pre k0 post where d: "keys = pre @ k0 # post" "0 < sc k0"
        "\<forall>k'\<in>set pre. sc k' < sc k0" "\<forall>k'\<in>set post. sc k' \<le> sc k0" by blast
    then have "bestKeyLoop sc keys (None, 0) = (Some k0, sc k0)"
      by (simp add: bestKeyLoop_first_max)
    with a have "k0 = k \<and> k \<noteq> [] \<and> 40 \<le> sc k"
      by (auto simp: chooseKey_def acceptBest_def split: if_splits)
    with d show ?thesis by blast
  qed
next
  assume ?rhs
  then obtain pre post where d: "k \<noteq> []" "40 \<le> sc k" "keys = pre @ k # post"
     "\<forall>k'\<in>set pre. sc k' < sc k" "\<forall>k'\<in>set post. sc k' \<le> sc k" by blast
  then have "bestKeyLoop sc keys (None, 0) = (Some k, sc k)"
    by (simp add: bestKeyLoop_first_max)
  with d show ?lhs
    by (simp add: chooseKey_def acceptBest_def)
qed

lemma chooseKey_in_keys: "chooseKey sc keys = Some k \<Longrightarrow> k \<in> set keys"
  by (auto simp: chooseKey_Some_iff)

subsection \<open>The outer loop\<close>

lemma snd_mapOneField: "snd (mapOneField keys m fld) = annotate keys fld"
  by (simp add: mapOneField_def annotate_def split: option.splits)

lemma fst_mapOneField:
  "fst (mapOneField keys m fld) =
     (case chooseKey (score fld) keys of None \<Rightarrow> m | Some k \<Rightarrow> m(mapKeyOf fld \<mapsto> k))"
  by (simp add: mapOneField_def split: option.splits)

lemma snd_mapFieldsLoop_Cons:
  "snd (mapFieldsLoop keys m (fld # flds)) =
     snd (mapOneField keys m fld) # snd (mapFieldsLoop keys (fst (mapOneField keys m fld)) flds)"
  by (auto split: prod.splits)

lemma fst_mapFieldsLoop_Cons:
  "fst (mapFieldsLoop keys m (fld # flds)) =
     fst (mapFieldsLoop keys (fst (mapOneField keys m fld)) flds)"
  by (auto split: prod.splits)

lemma snd_mapFieldsLoop: "snd (mapFieldsLoop keys m flds) = map (annotate keys) flds"
proof (induction flds arbitrary: m)
  case Nil
  then show ?case by simp
next
  case (Cons fld flds)
  then show ?case by (simp only: snd_mapFieldsLoop_Cons snd_mapOneField list.map)
qed

lemma mapFieldsLoop_target:
  "fst (mapFieldsLoop keys m flds) mk = Some k \<Longrightarrow>
   m mk = Some k \<or> (\<exists>f\<in>set flds. mapKeyOf f = mk \<and> chooseKey (score f) keys = Some k)"
proof (induction flds arbitrary: m)
  case Nil
  then show ?case by simp
next
  case (Cons fld flds)
  from Cons.prems have "fst (mapFieldsLoop keys (fst (mapOneField keys m fld)) flds) mk = Some k"
    by (simp only: fst_mapFieldsLoop_Cons)
  from Cons.IH [OF this] show ?case
    by (auto simp: fst_mapOneField split: option.splits if_splits)
qed

text \<open>The score and the field key do not read the two properties the mapper writes.\<close>

lemma score_annot [simp]: "score (fld\<lparr>matchedKey := a, mappingTarget := b\<rparr>) = score fld"
  by (rule ext) (simp add: score_def)

lemma mapKeyOf_annot [simp]: "mapKeyOf (fld\<lparr>matchedKey := a, mappingTarget := b\<rparr>) = mapKeyOf fld"
  by (simp add: mapKeyOf_def split: option.splits)

lemma score_annotate [simp]: "score (annotate keys fld) = score fld"
  by (simp add: annotate_def split: option.splits)

lemma mapKeyOf_annotate [simp]: "mapKeyOf (annotate keys fld) = mapKeyOf fld"
  by (simp add: annotate_def split: option.splits)

lemma annotate_idem [simp]: "annotate keys (annotate keys fld) = annotate keys fld"
  by (simp add: annotate_def split: option.splits)

lemma unannotated_annotate: "unannotated (annotate keys fld) = unannotated fld"
  by (simp add: annotate_def unannotated_def split: option.splits)

lemma fst_mapFieldsLoop_annotated:
  "fst (mapFieldsLoop keys m (map (annotate keys) flds)) = fst (mapFieldsLoop keys m flds)"
proof (induction flds arbitrary: m)
  case Nil
  then show ?case by simp
next
  case (Cons fld flds)
  have "fst (mapOneField keys m (annotate keys fld)) = fst (mapOneField keys m fld)"
    by (simp add: fst_mapOneField split: option.splits)
  then show ?case
    using Cons.IH by (simp only: list.map fst_mapFieldsLoop_Cons)
qed

subsection \<open>Tokens of normalized strings\<close>

lemma splitOn_none: "\<forall>c\<in>set s. \<not> p c \<Longrightarrow> splitOn p s = [s]"
  by (induction s) auto

lemma tokens_normalize:
  "tokens (normalize s) = (if 2 < length (normalize s) then [normalize s] else [])"
  by (simp add: tokens_def normalize_def splitOn_none)

text \<open>
  A normalized string has no separator left, so it is its own single token: the overlap of a
  label and a key is empty unless the two normalize to the same string.
\<close>

lemma overlap_normalize:
  "overlap (normalize a) (normalize b) =
     (if normalize a = normalize b \<and> 2 < length (normalize b) then [normalize b] else [])"
  by (auto simp: overlap_def tokens_normalize)

lemma score_token_term:
  "(if 0 < length (overlap (normalize a) (normalize b))
    then int (length (overlap (normalize a) (normalize b))) * 15 else 0)
    = (if normalize a = normalize b \<and> 2 < length (normalize b) then 15 else 0)"
  by (simp add: overlap_normalize)

section \<open>Claims about the label mapper\<close>

text \<open>
  C1 (as the specification states it: each data key is consumed by at most one field). The
  mapper keeps no record of the keys already chosen: here two fields with different field
  keys are both mapped to the data key \<open>email\<close>.
\<close>

theorem data_key_claimed_twice:
  "fst (mapFieldsToUserData
          [newField ''Email'' ''email'' True ''#userEmail'',
           newField ''E-mail'' ''email'' False ''#confirmEmail'']
          [''email'']) ''#userEmail'' = Some ''email''
   \<and> fst (mapFieldsToUserData
          [newField ''Email'' ''email'' True ''#userEmail'',
           newField ''E-mail'' ''email'' False ''#confirmEmail'']
          [''email'']) ''#confirmEmail'' = Some ''email''"
  by code_simp

text \<open>
  C1, amended: in the mapping returned, a field key has at most one data key (the mapping is a
  dictionary), that data key is one of the caller's keys, and it is the key chosen for a field
  with that field key, on that field's scores alone. Nothing prevents two fields from choosing
  the same data key.
\<close>

theorem mapping_target_is_independent_choice:
  "fst (mapFieldsToUserData flds keys) mk = Some k \<Longrightarrow>
     k \<in> set keys \<and> (\<exists>f\<in>set flds. mapKeyOf f = mk \<and> chooseKey (score f) keys = Some k)"
  using mapFieldsLoop_target [of keys Map.empty flds mk k]
  by (auto simp: mapFieldsToUserData_def chooseKey_in_keys)

theorem mapping_target_is_independent_choice_witness:
  "fst (mapFieldsToUserData [newField ''First Name'' ''text'' True ''#firstName''] [''lastName'', ''firstName''])
      ''#firstName'' = Some ''firstName''
   \<and> ''firstName'' \<in> set [''lastName'', ''firstName'']
   \<and> (\<exists>f\<in>set [newField ''First Name'' ''text'' True ''#firstName''].
         mapKeyOf f = ''#firstName'' \<and> chooseKey (score f) [''lastName'', ''firstName''] = Some ''firstName'')"
proof -
  have h: "fst (mapFieldsToUserData [newField ''First Name'' ''text'' True ''#firstName''] [''lastName'', ''firstName''])
      ''#firstName'' = Some ''firstName''"
    by code_simp
  from mapping_target_is_independent_choice [OF h] h show ?thesis by blast
qed

text \<open>
  C2 (as the specification states it: the field is mapped whenever the best score is at least
  40). The only key is the empty string; it scores 120 for a field without a \<open>name\<close>
  property, and the field stays unmapped, because the guard \<open>bestKey && \<dots>\<close> rejects the empty
  string.
\<close>

theorem empty_key_never_maps:
  "score (newField ''Name'' ''text'' True ''#name'') [] = 120
   \<and> chooseKey (score (newField ''Name'' ''text'' True ''#name'')) [[]] = None
   \<and> fst (mapFieldsToUserData [newField ''Name'' ''text'' True ''#name''] [[]]) ''#name'' = None"
  by code_simp

text \<open>
  C2, amended: the field is mapped to \<open>k\<close> if and only if \<open>k\<close> is a non-empty key that scores at
  least 40, no key scores more, and every key before it in the caller's order scores less (so
  the first key wins a tie). The statement holds for any scoring function \<open>sc\<close>, so a best score
  of exactly 40 maps and a best score of 39 does not; the second part says that the mapper
  applies it to \<^const>\<open>score\<close>.
\<close>

theorem acceptance_threshold:
  "(chooseKey sc keys = Some k \<longleftrightarrow>
      k \<noteq> [] \<and> 40 \<le> sc k \<and>
      (\<exists>pre post. keys = pre @ k # post \<and>
         (\<forall>k'\<in>set pre. sc k' < sc k) \<and> (\<forall>k'\<in>set post. sc k' \<le> sc k)))
   \<and> mapOneField keys m fld =
       (case chooseKey (score fld) keys of
          None \<Rightarrow> (m, fld)
        | Some bestKey \<Rightarrow>
            (m(mapKeyOf fld \<mapsto> bestKey),
             fld\<lparr>matchedKey := Some bestKey, mappingTarget := Some (mapKeyOf fld)\<rparr>))"
  by (simp add: chooseKey_Some_iff mapOneField_def)

theorem acceptance_threshold_witness:
  "chooseKey (\<lambda>k. if k = ''b'' \<or> k = ''c'' then 40 else 39) [''a'', ''b'', ''c''] = Some ''b''
   \<and> chooseKey (\<lambda>k. 39) [''a'', ''b'', ''c''] \<noteq> Some ''a''"
proof -
  let ?sc = "\<lambda>k. if k = ''b'' \<or> k = ''c'' then (40::int) else 39"
  have "[''a'', ''b'', ''c''] = [''a''] @ ''b'' # [''c''] \<and>
        (\<forall>k'\<in>set [''a'']. ?sc k' < ?sc ''b'') \<and> (\<forall>k'\<in>set [''c'']. ?sc k' \<le> ?sc ''b'')"
    by simp
  then have "\<exists>pre post. [''a'', ''b'', ''c''] = pre @ ''b'' # post \<and>
        (\<forall>k'\<in>set pre. ?sc k' < ?sc ''b'') \<and> (\<forall>k'\<in>set post. ?sc k' \<le> ?sc ''b'')"
    by blast
  then have 1: "chooseKey ?sc [''a'', ''b'', ''c''] = Some ''b''"
    using acceptance_threshold [of ?sc "[''a'', ''b'', ''c'']" "''b''"] by simp
  have 2: "chooseKey (\<lambda>k. 39) [''a'', ''b'', ''c''] \<noteq> Some ''a''"
    using acceptance_threshold [of "\<lambda>k. 39" "[''a'', ''b'', ''c'']" "''a''"] by simp
  from 1 2 show ?thesis by blast
qed

text \<open>
  C5. The score is the sum of the signals the specification lists, except for the token signal:
  \<open>split\<close> is applied to strings that \<open>normalize\<close> has already stripped of every separator, so
  a label or a key is never more than one token (\<open>overlap_normalize\<close>). A label and a key that
  share the three words \<open>home\<close>, \<open>address\<close> and \<open>city\<close> score 0, where 15 points for each shared
  whole word give 45.
\<close>

theorem shared_words_score_nothing:
  "score (newField ''Home Address City'' ''text'' False ''#address'') ''city address home'' = 0
   \<and> overlap (normalize ''Home Address City'') (normalize ''city address home'') = []
   \<and> spec_sharedTokenSignal ''Home Address City'' ''city address home'' = 45"
  by code_simp

text \<open>
  C6 (as the specification states it: the call does not mutate the field objects). After
  the call the field object carries \<open>matchedKey\<close> and \<open>mappingTarget\<close>.
\<close>

theorem mapper_mutates_fields:
  "snd (mapFieldsToUserData [newField ''Email'' ''email'' True ''#userEmail''] [''email''])
     = [(newField ''Email'' ''email'' True ''#userEmail'')
          \<lparr>matchedKey := Some ''email'', mappingTarget := Some ''#userEmail''\<rparr>]
   \<and> snd (mapFieldsToUserData [newField ''Email'' ''email'' True ''#userEmail''] [''email''])
     \<noteq> [newField ''Email'' ''email'' True ''#userEmail'']"
  by code_simp

text \<open>
  C6, amended: the mapping returned depends on the labels, names, types and selectors of the
  fields and on the data keys only, so a second run, on the field objects as the first run left
  them, returns the same mapping and leaves the objects as they are; the call does write on the
  field objects, but only the properties \<open>matchedKey\<close> and \<open>mappingTarget\<close> of the fields it
  maps.
\<close>

theorem mapper_rerun_same_mapping:
  "fst (mapFieldsToUserData (snd (mapFieldsToUserData flds keys)) keys) = fst (mapFieldsToUserData flds keys)
   \<and> snd (mapFieldsToUserData (snd (mapFieldsToUserData flds keys)) keys) = snd (mapFieldsToUserData flds keys)
   \<and> map unannotated (snd (mapFieldsToUserData flds keys)) = map unannotated flds
   \<and> snd (mapFieldsToUserData flds keys) = map (annotate keys) flds"
  by (simp add: mapFieldsToUserData_def snd_mapFieldsLoop fst_mapFieldsLoop_annotated unannotated_annotate)

theorem mapper_rerun_same_mapping_witness:
  "fst (mapFieldsToUserData (snd (mapFieldsToUserData [newField ''Email'' ''email'' True ''#userEmail''] [''email''])) [''email''])
     ''#userEmail'' = Some ''email''"
proof -
  have h: "fst (mapFieldsToUserData [newField ''Email'' ''email'' True ''#userEmail''] [''email'']) ''#userEmail'' = Some ''email''"
    by code_simp
  have e: "fst (mapFieldsToUserData (snd (mapFieldsToUserData [newField ''Email'' ''email'' True ''#userEmail''] [''email''])) [''email''])
       = fst (mapFieldsToUserData [newField ''Email'' ''email'' True ''#userEmail''] [''email''])"
    using mapper_rerun_same_mapping [of "[newField ''Email'' ''email'' True ''#userEmail'']" "[''email'']"]
    by (rule conjunct1)
  show ?thesis by (simp only: e h)
qed

section \<open>Properties of the fill order\<close>

lemma length_priorityGroups: "length priorityGroups = 7"
  by (simp add: priorityGroups_def)

lemma priorityGroups_nth:
  "priorityGroups ! 0 = [''text'', ''email'', ''phone'', ''textarea'']"
  "priorityGroups ! 1 = [''radio-group'']"
  "priorityGroups ! 2 = [''checkbox-group'']"
  "priorityGroups ! 3 = [''select'']"
  "priorityGroups ! 4 = [''date'', ''date-picker'']"
  "priorityGroups ! 5 = [''react-select'']"
  "priorityGroups ! 6 = [''file'']"
  by (simp_all add: priorityGroups_def)

lemma typePriority_values:
  "map_of typePriority ''text'' = Some 1" "map_of typePriority ''email'' = Some 1"
  "map_of typePriority ''phone'' = Some 1" "map_of typePriority ''textarea'' = Some 1"
  "map_of typePriority ''radio-group'' = Some 2" "map_of typePriority ''checkbox-group'' = Some 3"
  "map_of typePriority ''select'' = Some 4" "map_of typePriority ''date'' = Some 5"
  "map_of typePriority ''date-picker'' = Some 5" "map_of typePriority ''react-select'' = Some 6"
  "map_of typePriority ''file'' = Some 7"
  by (simp_all add: typePriority_def)

lemma typePriority_group:
  assumes "n < length priorityGroups" and "t \<in> set (priorityGroups ! n)"
  shows "map_of typePriority t = Some (int n + 1)"
proof -
  from assms(1) have "n = 0 \<or> n = 1 \<or> n = 2 \<or> n = 3 \<or> n = 4 \<or> n = 5 \<or> n = 6"
    unfolding length_priorityGroups by arith
  then consider "n = 0" | "n = 1" | "n = 2" | "n = 3" | "n = 4" | "n = 5" | "n = 6" by blast
  then show ?thesis
  proof cases
    case 1
    with assms(2) have "t = ''text'' \<or> t = ''email'' \<or> t = ''phone'' \<or> t = ''textarea''"
      by (simp only: priorityGroups_nth set_simps insert_iff empty_iff) blast
    with 1 show ?thesis using typePriority_values by auto
  next
    case 2
    with assms(2) have "t = ''radio-group''"
      by (simp only: priorityGroups_nth set_simps insert_iff empty_iff) blast
    with 2 show ?thesis using typePriority_values by auto
  next
    case 3
    with assms(2) have "t = ''checkbox-group''"
      by (simp only: priorityGroups_nth set_simps insert_iff empty_iff) blast
    with 3 show ?thesis using typePriority_values by auto
  next
    case 4
    with assms(2) have "t = ''select''"
      by (simp only: priorityGroups_nth set_simps insert_iff empty_iff) blast
    with 4 show ?thesis using typePriority_values by auto
  next
    case 5
    with assms(2) have "t = ''date'' \<or> t = ''date-picker''"
      by (simp only: priorityGroups_nth set_simps insert_iff empty_iff) blast
    with 5 show ?thesis using typePriority_values by auto
  next
    case 6
    with assms(2) have "t = ''react-select''"
      by (simp only: priorityGroups_nth set_simps insert_iff empty_iff) blast
    with 6 show ?thesis using typePriority_values by auto
  next
    case 7
    with assms(2) have "t = ''file''"
      by (simp only: priorityGroups_nth set_simps insert_iff empty_iff) blast
    with 7 show ?thesis using typePriority_values by auto
  qed
qed

lemma priorityOf_group:
  "n < length priorityGroups \<Longrightarrow> ftype f \<in> set (priorityGroups ! n) \<Longrightarrow>
   priorityOf f = Some (int n + 1)"
  by (simp add: priorityOf_def typePriority_group)

text \<open>The reference sort meets the standard.\<close>

lemma mset_insertBy: "mset (insertBy c x ys) = add_mset x (mset ys)"
  by (induction ys) simp_all

lemma mset_insertionSort: "mset (insertionSort c xs) = mset xs"
  by (induction xs) (simp_all add: insertionSort_def mset_insertBy)

lemma insertBy_insort:
  "\<forall>b\<in>set ys. c x b = Some (key x - key b) \<Longrightarrow> insertBy c x ys = insort_key key x ys"
  by (induction ys) simp_all

lemma insertionSort_sort_key:
  assumes "\<forall>a\<in>set xs. \<forall>b\<in>set xs. c a b = Some (key a - key b)"
  shows "insertionSort c xs = sort_key key xs"
proof -
  have "set ys \<subseteq> set xs \<Longrightarrow> foldr (insertBy c) ys [] = foldr (insort_key key) ys []" for ys
  proof (induction ys)
    case Nil
    show ?case by simp
  next
    case (Cons y ys)
    then have e: "foldr (insertBy c) ys [] = foldr (insort_key key) ys []" by simp
    have "set (foldr (insort_key key) ys []) = set ys"
      using set_sort [of key ys] by (simp add: sort_key_def)
    with Cons.prems assms have "\<forall>b\<in>set (foldr (insort_key key) ys []). c y b = Some (key y - key b)"
      by auto
    then show ?case by (simp add: e insertBy_insort)
  qed
  then show ?thesis by (simp add: insertionSort_def sort_key_def)
qed

lemma standardSort_insertionSort: "standardSort insertionSort"
  unfolding standardSort_def by (intro allI conjI impI mset_insertionSort insertionSort_sort_key)

text \<open>
  When no field has a type named like an inherited property, the comparator is the difference
  of the numeric priorities, and every sort that meets the standard yields the fields sorted by
  priority: a field of an earlier group of the table stands before a field of a later one.
\<close>

lemma sortByPriority_known_types:
  assumes "standardSort arraySort" and "\<forall>f\<in>set fs. priorityOf f \<noteq> None"
  shows "sortByPriority arraySort fs = sort_key (\<lambda>f. the (priorityOf f)) fs"
proof -
  from assms(2) have "\<forall>a\<in>set fs. \<forall>b\<in>set fs.
      comparePriority a b = Some ((\<lambda>f. the (priorityOf f)) a - (\<lambda>f. the (priorityOf f)) b)"
    by (auto simp: comparePriority_def split: option.splits)
  moreover from assms(1) have
    "(\<forall>a\<in>set fs. \<forall>b\<in>set fs.
        comparePriority a b = Some ((\<lambda>f. the (priorityOf f)) a - (\<lambda>f. the (priorityOf f)) b)) \<longrightarrow>
     arraySort comparePriority fs = sort_key (\<lambda>f. the (priorityOf f)) fs"
    unfolding standardSort_def by (elim allE conjE)
  ultimately show ?thesis
    unfolding sortByPriority_def by (rule rev_mp)
qed

lemma mset_sortByPriority:
  "standardSort arraySort \<Longrightarrow> mset (sortByPriority arraySort fs) = mset fs"
  unfolding standardSort_def sortByPriority_def by blast

lemma known_types_fill_order:
  assumes st: "standardSort arraySort" and kn: "\<forall>f\<in>set fs. ftype f \<notin> set inheritedProperties"
    and i: "i < length fs" and j: "j < length fs" and mn: "m < n" "n < length priorityGroups"
    and ti: "ftype (sortByPriority arraySort fs ! i) \<in> set (priorityGroups ! m)"
    and tj: "ftype (sortByPriority arraySort fs ! j) \<in> set (priorityGroups ! n)"
  shows "i < j"
proof -
  let ?key = "\<lambda>f. the (priorityOf f)"
  let ?r = "sortByPriority arraySort fs"
  from kn have "\<forall>f\<in>set fs. priorityOf f \<noteq> None"
    by (auto simp: priorityOf_def split: option.splits)
  from sortByPriority_known_types [OF st this] have r: "?r = sort_key ?key fs" .
  then have s: "sorted (map ?key ?r)" and l: "length ?r = length fs" by simp_all
  from mn have "m < length priorityGroups" by simp
  from priorityOf_group [OF this ti] have pi: "?key (?r ! i) = int m + 1" by simp
  from priorityOf_group [OF mn(2) tj] have pj: "?key (?r ! j) = int n + 1" by simp
  show "i < j"
  proof (rule ccontr)
    assume "\<not> i < j"
    then have "j \<le> i" by simp
    with s i l have "map ?key ?r ! j \<le> map ?key ?r ! i"
      by (simp add: sorted_nth_mono del: nth_map)
    with i j l have "?key (?r ! j) \<le> ?key (?r ! i)" by simp
    with pi pj mn show False by simp
  qed
qed

text \<open>
  C4. The fill order does not always group the fields by the priority table. For a field whose
  type is named like a property that \<open>typePriority\<close> inherits, here \<open>constructor\<close>, the value read
  from the table is not a number and every comparison with the field yields \<open>NaN\<close>. With a file
  field before it and a text field after it, the comparator puts neither of them on the other
  side of it, and the sort leaves the three fields as they are: the file field is filled before
  the text field.
\<close>

theorem inherited_type_name_breaks_fill_order:
  "priorityOf embedField = None \<and>
   comparePriority resumeField embedField = None \<and>
   comparePriority embedField nameField = None \<and>
   comparePriority resumeField nameField = Some 6 \<and>
   sortByPriority insertionSort [resumeField, embedField, nameField] =
     [resumeField, embedField, nameField] \<and>
   ftype resumeField \<in> set (priorityGroups ! 6) \<and> ftype nameField \<in> set (priorityGroups ! 0)"
  by code_simp

section \<open>Properties of the fill phase\<close>











section \<open>Properties of the page capability\<close>

lemma extendsD: "extends m \<Longrightarrow> m pg trace = (r, trace') \<Longrightarrow> \<exists>suffix. trace' = trace @ suffix"
  unfolding extends_def by (metis snd_conv)

lemma extends_perform [simp]: "extends (perform operation)"
  by (simp add: extends_def perform_def split: response.splits)

lemma extends_result [simp]: "extends (result x)"
  by (simp add: extends_def result_def)

lemma extends_throw [simp]: "extends (throw e)"
  by (simp add: extends_def throw_def)

lemma extends_andThen [simp]:
  assumes "extends m" and "\<And>x. extends (f x)"
  shows "extends (andThen m f)"
  unfolding extends_def
proof (intro allI)
  fix pg trace
  obtain r t1 where m: "m pg trace = (r, t1)" by (cases "m pg trace")
  from extendsD [OF assms(1) m] obtain s1 where s1: "t1 = trace @ s1" by blast
  show "\<exists>suffix. snd (andThen m f pg trace) = trace @ suffix"
  proof (cases r)
    case (Inl e)
    with m s1 show ?thesis by (simp add: andThen_def)
  next
    case (Inr x)
    obtain r2 t2 where f: "f x pg t1 = (r2, t2)" by (cases "f x pg t1")
    from extendsD [OF assms(2) f] obtain s2 where "t2 = t1 @ s2" by blast
    with m s1 Inr f show ?thesis by (simp add: andThen_def)
  qed
qed

lemma extends_catch [simp]:
  assumes "extends m" and "\<And>e. extends (h e)"
  shows "extends (catch m h)"
  unfolding extends_def
proof (intro allI)
  fix pg trace
  obtain r t1 where m: "m pg trace = (r, t1)" by (cases "m pg trace")
  from extendsD [OF assms(1) m] obtain s1 where s1: "t1 = trace @ s1" by blast
  show "\<exists>suffix. snd (catch m h pg trace) = trace @ suffix"
  proof (cases r)
    case (Inr x)
    with m s1 show ?thesis by (simp add: catch_def)
  next
    case (Inl e)
    obtain r2 t2 where f: "h e pg t1 = (r2, t2)" by (cases "h e pg t1")
    from extendsD [OF assms(2) f] obtain s2 where "t2 = t1 @ s2" by blast
    with m s1 Inl f show ?thesis by (simp add: catch_def)
  qed
qed

lemma extends_if [simp]: "extends m \<Longrightarrow> extends n \<Longrightarrow> extends (if c then m else n)"
  by simp

lemma andThen_Inr:
  "andThen m f pg trace = (Inr y, trace') \<Longrightarrow>
   \<exists>x t1. m pg trace = (Inr x, t1) \<and> f x pg t1 = (Inr y, trace')"
  by (auto simp: andThen_def split: prod.splits sum.splits)

section \<open>Properties of \<open>fillTimeGroup\<close>\<close>

lemma extends_typeInto [simp]: "extends (typeInto s t)"
  by (simp add: typeInto_def)

lemma extends_clickAmpmOption [simp]: "extends (clickAmpmOption ampm ks)"
  unfolding extends_def
proof (intro allI)
  fix pg trace
  show "\<exists>suffix. snd (clickAmpmOption ampm ks pg trace) = trace @ suffix"
  proof (induction ks arbitrary: trace)
    case Nil
    then show ?case by simp
  next
    case (Cons k ks)
    obtain r t1 where p: "perform (InnerTextOf ampmOptions k) pg trace = (r, t1)"
      by (cases "perform (InnerTextOf ampmOptions k) pg trace")
    from extendsD [OF extends_perform p] obtain s1 where s1: "t1 = trace @ s1" by blast
    show ?case
    proof (cases r)
      case (Inl e)
      with p s1 show ?thesis by simp
    next
      case (Inr tx)
      show ?thesis
      proof (cases "case tx of Text t \<Rightarrow> toUpperCase (trim t) = ampm | _ \<Rightarrow> False")
        case True
        have "extends (andThen (perform (ClickHandle ampmOptions k)) (\<lambda>_. result True))" by simp
        then obtain s2 where "snd (andThen (perform (ClickHandle ampmOptions k)) (\<lambda>_. result True) pg t1) = t1 @ s2"
          unfolding extends_def by blast
        with p s1 Inr True show ?thesis by simp
      next
        case False
        from Cons.IH [of t1] obtain s2 where "snd (clickAmpmOption ampm ks pg t1) = t1 @ s2" by blast
        with p s1 Inr False show ?thesis by simp
      qed
    qed
  qed
qed

lemma extends_selectAmpm [simp]: "extends (selectAmpm s a)"
  by (simp add: selectAmpm_def)

lemma extends_fillSubInput [simp]: "extends (fillSubInput h m a i)"
  by (simp add: fillSubInput_def)

lemma extends_fillSubInputs [simp]: "extends (fillSubInputs h m a ins)"
  unfolding extends_def
proof (intro allI)
  fix pg trace
  show "\<exists>suffix. snd (fillSubInputs h m a ins pg trace) = trace @ suffix"
  proof (induction ins arbitrary: trace)
    case Nil
    then show ?case by simp
  next
    case (Cons i ins)
    obtain r t1 where p: "fillSubInput h m a i pg trace = (r, t1)"
      by (cases "fillSubInput h m a i pg trace")
    from extendsD [OF extends_fillSubInput p] obtain s1 where s1: "t1 = trace @ s1" by blast
    show ?case
    proof (cases r)
      case (Inl e)
      with p s1 show ?thesis by simp
    next
      case (Inr x)
      from Cons.IH [of t1] obtain s2 where "snd (fillSubInputs h m a ins pg t1) = t1 @ s2" by blast
      with p s1 Inr show ?thesis by simp
    qed
  qed
qed

text \<open>
  The verification loop counts at most one per numeric sub-input, and it counts all of them only
  if the page has answered each read with the expected string.
\<close>

lemma verifySubInputs_count:
  "verifySubInputs h m ins c pg trace = (Inr c', trace') \<Longrightarrow>
   \<exists>suffix. trace' = trace @ suffix \<and>
     c' \<le> c + length (filter (\<lambda>i. i_type i \<noteq> ''ampm'') ins) \<and>
     (c' = c + length (filter (\<lambda>i. i_type i \<noteq> ''ampm'') ins) \<longrightarrow>
        (\<forall>i\<in>set ins. i_type i \<noteq> ''ampm'' \<longrightarrow>
           (InputValue (i_selector i), Returns (Text (expectedVal h m i))) \<in> set suffix))"
proof (induction ins arbitrary: c trace)
  case Nil
  then show ?case by simp
next
  case (Cons i ins)
  show ?case
  proof (cases "i_type i \<noteq> ''ampm''")
    case False
    with Cons.prems have "verifySubInputs h m ins c pg trace = (Inr c', trace')" by simp
    from Cons.IH [OF this] False show ?thesis by auto
  next
    case True
    show ?thesis
    proof (cases "pg trace (InputValue (i_selector i))")
      case (Throws e)
      with Cons.prems True show ?thesis by (simp add: perform_def)
    next
      case (Returns v)
      let ?t1 = "trace @ [(InputValue (i_selector i), Returns v)]"
      let ?c1 = "if v = Text (expectedVal h m i) then c + 1 else c"
      from Cons.prems True Returns have "verifySubInputs h m ins ?c1 pg ?t1 = (Inr c', trace')"
        by (simp add: perform_def)
      from Cons.IH [OF this] obtain s2 where s2: "trace' = ?t1 @ s2"
        "c' \<le> ?c1 + length (filter (\<lambda>i. i_type i \<noteq> ''ampm'') ins)"
        "c' = ?c1 + length (filter (\<lambda>i. i_type i \<noteq> ''ampm'') ins) \<longrightarrow>
           (\<forall>i\<in>set ins. i_type i \<noteq> ''ampm'' \<longrightarrow>
             (InputValue (i_selector i), Returns (Text (expectedVal h m i))) \<in> set s2)"
        by blast
      let ?suf = "(InputValue (i_selector i), Returns v) # s2"
      have 1: "trace' = trace @ ?suf" using s2(1) by simp
      have 2: "c' \<le> c + length (filter (\<lambda>i. i_type i \<noteq> ''ampm'') (i # ins))"
        using s2(2) True by (simp split: if_splits)
      have 3: "c' = c + length (filter (\<lambda>i. i_type i \<noteq> ''ampm'') (i # ins)) \<longrightarrow>
         (\<forall>j\<in>set (i # ins). i_type j \<noteq> ''ampm'' \<longrightarrow>
           (InputValue (i_selector j), Returns (Text (expectedVal h m j))) \<in> set ?suf)"
      proof
        assume e: "c' = c + length (filter (\<lambda>i. i_type i \<noteq> ''ampm'') (i # ins))"
        with s2(2) True have v: "v = Text (expectedVal h m i)" by (simp split: if_splits)
        with e True have "c' = ?c1 + length (filter (\<lambda>i. i_type i \<noteq> ''ampm'') ins)" by simp
        with s2(3) have "\<forall>i\<in>set ins. i_type i \<noteq> ''ampm'' \<longrightarrow>
             (InputValue (i_selector i), Returns (Text (expectedVal h m i))) \<in> set s2" by blast
        with v show "\<forall>j\<in>set (i # ins). i_type j \<noteq> ''ampm'' \<longrightarrow>
           (InputValue (i_selector j), Returns (Text (expectedVal h m j))) \<in> set ?suf"
          by auto
      qed
      from 1 2 3 show ?thesis by blast
    qed
  qed
qed

lemma parseTime_None_iff: "parseTime v = None \<longleftrightarrow> length (splitOn (\<lambda>c. c = CHR '':'') v) < 2"
  by (auto simp: parseTime_def Let_def split: list.splits)

text \<open>
  C7. A value without a colon makes \<open>fillTimeGroup\<close> throw before it touches the page; the
  value \<open>14:5\<close> is parsed to the hour \<open>14\<close>, the minute \<open>05\<close> and the meridiem \<open>PM\<close>; and when
  \<open>fillTimeGroup\<close> returns, it returns \<open>true\<close>, and the page has answered the read of every
  sub-input other than the meridiem with the hour, for a sub-input of type \<open>hour\<close>, and with the
  minute, for any other one. In every other case it throws.
\<close>

theorem time_group_contract:
  "(length (splitOn (\<lambda>c. c = CHR '':'') userValue) < 2 \<longrightarrow>
      (\<exists>message. fillTimeGroup fld userValue pg trace = (Inl message, trace)))
   \<and> parseTime ''14:5'' = Some (''14'', ''05'', ''PM'')
   \<and> (fst (fillTimeGroup fld userValue pg trace) = Inr success \<longrightarrow>
        success \<and>
        (\<exists>hour minute ampm ins.
           parseTime userValue = Some (hour, minute, ampm) \<and> inputs fld = Some ins \<and>
           (\<forall>i\<in>set ins. i_type i \<noteq> ''ampm'' \<longrightarrow>
              (InputValue (i_selector i), Returns (Text (expectedVal hour minute i)))
                \<in> set (drop (length trace) (snd (fillTimeGroup fld userValue pg trace))))))"
proof (intro conjI impI)
  assume "length (splitOn (\<lambda>c. c = CHR '':'') userValue) < 2"
  then have "parseTime userValue = None" by (simp add: parseTime_None_iff)
  then show "\<exists>message. fillTimeGroup fld userValue pg trace = (Inl message, trace)"
    by (simp add: fillTimeGroup_def throw_def)
next
  show "parseTime ''14:5'' = Some (''14'', ''05'', ''PM'')" by code_simp
next
  assume a: "fst (fillTimeGroup fld userValue pg trace) = Inr success"
  then obtain t' where r: "fillTimeGroup fld userValue pg trace = (Inr success, t')"
    by (cases "fillTimeGroup fld userValue pg trace") auto
  from r obtain hour minute ampm where p: "parseTime userValue = Some (hour, minute, ampm)"
    by (cases "parseTime userValue") (auto simp: fillTimeGroup_def throw_def)
  from r p obtain ins where i: "inputs fld = Some ins"
    by (cases "inputs fld") (auto simp: fillTimeGroup_def throw_def)
  let ?n = "length (filter (\<lambda>i. i_type i \<noteq> ''ampm'') ins)"
  from r p i have "andThen (fillSubInputs hour minute ampm ins) (\<lambda>_.
       andThen (verifySubInputs hour minute ins 0) (\<lambda>verifiedCount.
         if verifiedCount = ?n then result True
         else throw (''Failed to fill time field: '' @ label fld))) pg trace = (Inr success, t')"
    by (simp add: fillTimeGroup_def Let_def)
  from andThen_Inr [OF this] obtain x t1 where
    f: "fillSubInputs hour minute ampm ins pg trace = (Inr x, t1)" and
    g: "andThen (verifySubInputs hour minute ins 0) (\<lambda>verifiedCount.
         if verifiedCount = ?n then result True
         else throw (''Failed to fill time field: '' @ label fld)) pg t1 = (Inr success, t')"
    by blast
  from andThen_Inr [OF g] obtain c t2 where
    v: "verifySubInputs hour minute ins 0 pg t1 = (Inr c, t2)" and
    e: "(if c = ?n then result True
         else throw (''Failed to fill time field: '' @ label fld)) pg t2 = (Inr success, t')"
    by blast
  from e have c: "c = ?n" and s: "success" and t: "t' = t2"
    by (auto simp: result_def throw_def split: if_splits)
  from extendsD [OF extends_fillSubInputs f] obtain s1 where s1: "t1 = trace @ s1" by blast
  from verifySubInputs_count [OF v] c obtain s2 where s2: "t2 = t1 @ s2"
    "\<forall>i\<in>set ins. i_type i \<noteq> ''ampm'' \<longrightarrow>
       (InputValue (i_selector i), Returns (Text (expectedVal hour minute i))) \<in> set s2"
    by auto
  from r t s1 s2(1) have d: "drop (length trace) (snd (fillTimeGroup fld userValue pg trace)) = s1 @ s2"
    by simp
  from s2(2) have "\<forall>i\<in>set ins. i_type i \<noteq> ''ampm'' \<longrightarrow>
       (InputValue (i_selector i), Returns (Text (expectedVal hour minute i)))
         \<in> set (drop (length trace) (snd (fillTimeGroup fld userValue pg trace)))"
    unfolding d by simp
  with p i show "\<exists>hour minute ampm ins.
           parseTime userValue = Some (hour, minute, ampm) \<and> inputs fld = Some ins \<and>
           (\<forall>i\<in>set ins. i_type i \<noteq> ''ampm'' \<longrightarrow>
              (InputValue (i_selector i), Returns (Text (expectedVal hour minute i)))
                \<in> set (drop (length trace) (snd (fillTimeGroup fld userValue pg trace))))"
    by blast
  from s show success .
qed

text \<open>
  A run on a page that answers the two reads with \<open>14\<close> and \<open>05\<close> and offers the options
  \<open>AM\<close> and \<open>PM\<close>: the handler types \<open>14\<close> and \<open>05\<close>, clicks the second option and succeeds.
  On the same page the value \<open>1430\<close> is refused.
\<close>

theorem time_group_contract_witness:
  "fst (fillTimeGroup timeField ''14:5'' timePage []) = Inr True
   \<and> (TypeText ''#h'' ''14'', Returns Undefined) \<in> set (snd (fillTimeGroup timeField ''14:5'' timePage []))
   \<and> (TypeText ''#m'' ''05'', Returns Undefined) \<in> set (snd (fillTimeGroup timeField ''14:5'' timePage []))
   \<and> (ClickHandle ampmOptions 1, Returns Undefined) \<in> set (snd (fillTimeGroup timeField ''14:5'' timePage []))
   \<and> (\<exists>hour minute ampm ins.
           parseTime ''14:5'' = Some (hour, minute, ampm) \<and> inputs timeField = Some ins \<and>
           (\<forall>i\<in>set ins. i_type i \<noteq> ''ampm'' \<longrightarrow>
              (InputValue (i_selector i), Returns (Text (expectedVal hour minute i)))
                \<in> set (drop (length ([]::event list)) (snd (fillTimeGroup timeField ''14:5'' timePage [])))))
   \<and> (\<exists>message. fillTimeGroup timeField ''1430'' timePage [] = (Inl message, []))"
proof -
  have h: "fst (fillTimeGroup timeField ''14:5'' timePage []) = Inr True" by code_simp
  have t: "(TypeText ''#h'' ''14'', Returns Undefined) \<in> set (snd (fillTimeGroup timeField ''14:5'' timePage []))"
    "(TypeText ''#m'' ''05'', Returns Undefined) \<in> set (snd (fillTimeGroup timeField ''14:5'' timePage []))"
    "(ClickHandle ampmOptions 1, Returns Undefined) \<in> set (snd (fillTimeGroup timeField ''14:5'' timePage []))"
    by code_simp+
  have n: "length (splitOn (\<lambda>c. c = CHR '':'') ''1430'') < 2" by simp
  from time_group_contract [where userValue = "''1430''" and fld = timeField and pg = timePage
      and trace = "[]", THEN conjunct1] n
  have 1: "\<exists>message. fillTimeGroup timeField ''1430'' timePage [] = (Inl message, [])" by blast
  have 2: "\<exists>hour minute ampm ins.
           parseTime ''14:5'' = Some (hour, minute, ampm) \<and> inputs timeField = Some ins \<and>
           (\<forall>i\<in>set ins. i_type i \<noteq> ''ampm'' \<longrightarrow>
              (InputValue (i_selector i), Returns (Text (expectedVal hour minute i)))
                \<in> set (drop (length ([]::event list)) (snd (fillTimeGroup timeField ''14:5'' timePage []))))"
    using time_group_contract [where userValue = "''14:5''" and fld = timeField and pg = timePage
      and trace = "[]" and success = True, THEN conjunct2, THEN conjunct2, THEN mp, OF h]
    by (rule conjunct2)
  from h t 1 2 show ?thesis by (intro conjI)
qed

section \<open>Properties of \<open>fillDate\<close>\<close>

text \<open>
  C10. When the value does not parse as a date, \<open>fillDate\<close> throws the error
  \<open>Invalid date value\<close> and the trace is as it was: no operation on the page has been performed.
\<close>

theorem fillDate_fails_fast:
  "newDate userValue = None \<Longrightarrow>
   fillDate newDate selectr userValue fld pg trace = (Inl (''Invalid date value: '' @ userValue), trace)"
  by (simp add: fillDate_def throw_def)

text \<open>
  A parser that knows one date, and a page that answers every operation: the value
  \<open>not-a-date\<close> is refused without an operation, the date is filled in with one.
\<close>

theorem fillDate_fails_fast_witness:
  "oneDate ''not-a-date'' = None
   \<and> fillDate oneDate ''#dob'' ''not-a-date'' (newField ''Date of Birth'' ''date'' True ''#dob'')
        (\<lambda>trace operation. Returns Undefined) []
      = (Inl ''Invalid date value: not-a-date'', [])
   \<and> fillDate oneDate ''#dob'' ''2024-01-15'' (newField ''Date of Birth'' ''date'' True ''#dob'')
        (\<lambda>trace operation. Returns Undefined) []
      = (Inr True,
         [(Query ''#dob .react-datepicker-wrapper'', Returns Undefined),
          (Fill ''#dob'' ''2024-01-15'', Returns Undefined)])"
proof -
  have n: "oneDate ''not-a-date'' = None" by (simp add: oneDate_def)
  have 1: "fillDate oneDate ''#dob'' ''not-a-date'' (newField ''Date of Birth'' ''date'' True ''#dob'')
        (\<lambda>trace operation. Returns Undefined) []
      = (Inl ''Invalid date value: not-a-date'', [])"
    using fillDate_fails_fast [where newDate = oneDate and userValue = "''not-a-date''"
       and selectr = "''#dob''" and fld = "newField ''Date of Birth'' ''date'' True ''#dob''"
       and pg = "\<lambda>trace operation. Returns Undefined" and trace = "[]"] n by simp
  have 2: "fillDate oneDate ''#dob'' ''2024-01-15'' (newField ''Date of Birth'' ''date'' True ''#dob'')
        (\<lambda>trace operation. Returns Undefined) []
      = (Inr True,
         [(Query ''#dob .react-datepicker-wrapper'', Returns Undefined),
          (Fill ''#dob'' ''2024-01-15'', Returns Undefined)])"
    by code_simp
  from n 1 2 show ?thesis by blast
qed

section \<open>Properties of the radio and checkbox handlers\<close>

lemma verifications_append [simp]: "verifications (xs @ ys) = verifications xs @ verifications ys"
  by (simp add: verifications_def)

lemma verifications_Nil [simp]: "verifications [] = []"
  by (simp add: verifications_def)

lemma quiet_extends: "quiet m \<Longrightarrow> extends m"
  unfolding quiet_def extends_def by blast

lemma quiet_perform: "\<not> isVerification operation \<Longrightarrow> quiet (perform operation)"
  by (simp add: quiet_def perform_def verifications_def split: response.splits)

lemma quiet_result [simp]: "quiet (result x)"
  by (simp add: quiet_def result_def)

lemma quiet_throw [simp]: "quiet (throw e)"
  by (simp add: quiet_def throw_def)

lemma quiet_if [simp]: "quiet m \<Longrightarrow> quiet n \<Longrightarrow> quiet (if c then m else n)"
  by simp

lemma quiet_andThen [simp]:
  assumes "quiet m" and "\<And>x. quiet (f x)"
  shows "quiet (andThen m f)"
  unfolding quiet_def
proof (intro allI)
  fix pg trace
  obtain r t1 where m: "m pg trace = (r, t1)" by (cases "m pg trace")
  from assms(1) m obtain s1 where s1: "t1 = trace @ s1" "verifications s1 = []"
    unfolding quiet_def by (metis snd_conv)
  show "\<exists>suffix. snd (andThen m f pg trace) = trace @ suffix \<and> verifications suffix = []"
  proof (cases r)
    case (Inl e)
    with m s1 show ?thesis by (simp add: andThen_def)
  next
    case (Inr x)
    from assms(2) [of x] obtain s2 where "snd (f x pg t1) = t1 @ s2" "verifications s2 = []"
      unfolding quiet_def by blast
    with m s1 Inr have "snd (andThen m f pg trace) = trace @ (s1 @ s2) \<and> verifications (s1 @ s2) = []"
      by (simp add: andThen_def)
    then show ?thesis by blast
  qed
qed

lemma quiet_catch [simp]:
  assumes "quiet m" and "\<And>e. quiet (h e)"
  shows "quiet (catch m h)"
  unfolding quiet_def
proof (intro allI)
  fix pg trace
  obtain r t1 where m: "m pg trace = (r, t1)" by (cases "m pg trace")
  from assms(1) m obtain s1 where s1: "t1 = trace @ s1" "verifications s1 = []"
    unfolding quiet_def by (metis snd_conv)
  show "\<exists>suffix. snd (catch m h pg trace) = trace @ suffix \<and> verifications suffix = []"
  proof (cases r)
    case (Inr x)
    with m s1 show ?thesis by (simp add: catch_def)
  next
    case (Inl e)
    from assms(2) [of e] obtain s2 where "snd (h e pg t1) = t1 @ s2" "verifications s2 = []"
      unfolding quiet_def by blast
    with m s1 Inl have "snd (catch m h pg trace) = trace @ (s1 @ s2) \<and> verifications (s1 @ s2) = []"
      by (simp add: catch_def)
    then show ?thesis by blast
  qed
qed

lemma quiet_ops [simp]:
  "quiet (perform (Query s))" "quiet (perform (ScrollIntoView s))"
  "quiet (perform (Click s force pos))" "quiet (perform (WaitForTimeout n))"
  "quiet (perform (Evaluate (ScriptClick s)))"
  by (simp_all add: quiet_perform isVerification_def)

lemma quiet_chooseClickSelector [simp]: "quiet (chooseClickSelector match)"
  by (simp add: chooseClickSelector_def split: option.splits)










text \<open>
  The handler \<open>selectCheckbox\<close> does not verify its second click either, and returns \<open>true\<close>
  on the same page.
\<close>

lemma selectCheckbox_unverified_success:
  "fst (selectCheckbox genderField [''male''] inertPage []) = Inr True
   \<and> verifications (snd (selectCheckbox genderField [''male''] inertPage []))
       = [Returns (Boolean False), Returns (Boolean False)]"
  by code_simp



section \<open>Properties of field discovery\<close>

lemma set_update_subset: "set (AList.update k v m) \<subseteq> insert (k, v) (set m)"
  by (induction m) auto

lemma labelled_mapSet:
  "labelled m \<Longrightarrow> label f = k \<Longrightarrow> k \<noteq> [] \<Longrightarrow> labelled (mapSet k f m)"
  unfolding labelled_def mapSet_def
  using set_update_subset [of k f m] by (auto simp: distinct_update)

lemma label_detectedField [simp]: "label (detectedField ty lbl req sel isel opts) = lbl"
  by (simp add: detectedField_def)

lemma labelled_inspectQuestion: "labelled m \<Longrightarrow> labelled (inspectQuestion i q m)"
  by (auto simp: inspectQuestion_def Let_def labelled_mapSet split: prod.splits option.splits)

lemma labelled_inspectQuestions: "labelled m \<Longrightarrow> labelled (inspectQuestions i qs m)"
  by (induction qs arbitrary: i m) (simp_all add: labelled_inspectQuestion)

lemma labelled_inspectGroup: "labelled m \<Longrightarrow> labelled (inspectGroup g m)"
  by (auto simp: inspectGroup_def Let_def labelled_mapSet)

lemma labelled_inspectGroups: "labelled m \<Longrightarrow> labelled (inspectGroups gs m)"
  by (induction gs arbitrary: m) (simp_all add: labelled_inspectGroup)

lemma labelled_inspectElement: "labelled m \<Longrightarrow> labelled (inspectElement el m)"
  by (auto simp: inspectElement_def Let_def labelled_mapSet)

lemma labelled_inspectElements: "labelled m \<Longrightarrow> labelled (inspectElements els m)"
  by (induction els arbitrary: m) (simp_all add: labelled_inspectElement)

text \<open>The labels of one discovery pass are non-empty and pairwise distinct.\<close>

lemma inspectForm_labels:
  assumes "inspectForm doc = Inr flds"
  shows "(\<forall>f\<in>set flds. label f \<noteq> []) \<and> distinct (map label flds)"
proof -
  let ?m = "inspectElements (genericInputs doc) (afterGroups doc)"
  from assms have f: "flds = mapValues ?m"
    by (auto simp: inspectForm_def split: if_splits)
  have "labelled []" by (simp add: labelled_def)
  then have l: "labelled ?m"
    unfolding afterGroups_def afterQuestions_def
    by (intro labelled_inspectElements labelled_inspectGroups labelled_inspectQuestions)
  then have e: "map (label \<circ> snd) ?m = map fst ?m"
    unfolding labelled_def by (auto simp: map_eq_conv)
  from l have d: "distinct (map fst ?m)" and n: "\<forall>(k, f)\<in>set ?m. label f = k \<and> k \<noteq> []"
    unfolding labelled_def by simp_all
  from d have 1: "distinct (map label flds)"
    unfolding f mapValues_def map_map e .
  from n have 2: "\<forall>f\<in>set flds. label f \<noteq> []"
    unfolding f mapValues_def by auto
  from 1 2 show ?thesis by simp
qed

text \<open>A group of inputs named like an inherited property ends the pass with the exception.\<close>

lemma inspectForm_inherited_name:
  "g \<in> set (groups doc) \<Longrightarrow> g_name g \<in> set inheritedProperties \<Longrightarrow>
   inspectForm doc = Inl ''groups[name].push is not a function''"
  unfolding inspectForm_def by (simp only: if_P [OF bexI])

text \<open>The third pass leaves every entry of the map as it finds it.\<close>

lemma inspectElement_keeps: "map_of m k = Some f \<Longrightarrow> map_of (inspectElement el m) k = Some f"
  by (auto simp: inspectElement_def Let_def mapSet_def mapHas_def update_conv')

lemma inspectElements_keeps: "map_of m k = Some f \<Longrightarrow> map_of (inspectElements els m) k = Some f"
  by (induction els arbitrary: m) (simp_all add: inspectElement_keeps)

text \<open>
  C8. The labels are non-empty and distinct (\<open>inspectForm_labels\<close>), and the third pass does
  not overwrite (\<open>inspectElements_keeps\<close>). The second pass does: it calls \<open>detectedMap.set\<close>
  without asking \<open>detectedMap.has\<close>. For a document with a question headed \<open>Gender\<close> and a
  group of native radio buttons under the legend \<open>Gender\<close>, the first pass adds a text field,
  and the second pass puts the radio group in its place.
\<close>

theorem native_group_overwrites_question:
  "afterQuestions collidingDocument =
     [(''Gender'',
       detectedField ''text'' ''Gender'' True
         (''div[role='' @ dquote @ ''listitem'' @ dquote @ '']:nth-of-type(1) input:not([type=''
            @ dquote @ ''hidden'' @ dquote @ ''])'')
         None [])]
   \<and> inspectForm collidingDocument =
     Inr [detectedField ''radio-group'' ''Gender'' False ''#genderWrapper'' None
            [\<lparr>o_id = Some ''gender-radio-1'', o_value = Some ''Male'', o_label = Some ''Male'',
              o_text = Some ''Male'', o_selector = ''#male''\<rparr>]]"
  by code_simp

end
